theory Spec2Isabelle
  imports Complex_Main "HOL-Library.Sublist"
begin

section \<open>Values that cross the browser boundary\<close>

text \<open>
  A Python \<^verbatim>\<open>float\<close> and a JavaScript number are both IEEE doubles. A finite double
  is modelled by the rational it denotes (both zeros by \<open>Fin 0\<close>); the three special
  values are constructors of their own.
\<close>

datatype pyfloat = Fin rat | PosInf | NegInf | NaN

text \<open>
  What a property of the matched element can hold, and what \<^verbatim>\<open>page.evaluate\<close> hands
  back to Python: \<^verbatim>\<open>undefined\<close> and \<^verbatim>\<open>null\<close> arrive as \<^verbatim>\<open>None\<close>, a boolean as
  \<^verbatim>\<open>bool\<close>, a number as a Python number, a string as \<^verbatim>\<open>str\<close>, anything else as an
  object (\<open>JObj\<close> carries the name of the Python type it arrives as).
\<close>

datatype jsval = JUndefined | JNull | JBool bool | JNum pyfloat | JStr string | JObj string

text \<open>JavaScript's ToBoolean, which \<^verbatim>\<open>||\<close>, \<^verbatim>\<open>&&\<close>, \<^verbatim>\<open>!!\<close> and \<^verbatim>\<open>?:\<close> apply.\<close>

fun js_truthy :: "jsval \<Rightarrow> bool" where
  "js_truthy JUndefined = False"
| "js_truthy JNull = False"
| "js_truthy (JBool b) = b"
| "js_truthy (JNum x) = (x \<noteq> Fin 0 \<and> x \<noteq> NaN)"
| "js_truthy (JStr s) = (s \<noteq> [])"
| "js_truthy (JObj ty) = True"

text \<open>Python's \<^verbatim>\<open>played is not None\<close> on a value returned by \<^verbatim>\<open>page.evaluate\<close>.\<close>

fun is_not_None :: "jsval \<Rightarrow> bool" where
  "is_not_None JUndefined = False"
| "is_not_None JNull = False"
| "is_not_None v = True"

text \<open>
  What \<^verbatim>\<open>p = v.play()\<close> can be, as far as the script looks at it: a value that is
  falsy or has no callable \<^verbatim>\<open>then\<close>, or a thenable, on which the script calls
  \<^verbatim>\<open>p.catch(...)\<close>; the flag says whether that call throws.
\<close>

datatype promise = NotThenable | Thenable (catch_throws: bool)

datatype play_call = Throws | Returns promise

text \<open>
  The element \<^verbatim>\<open>document.querySelector(selector)\<close> yields, as the four scripts see it.
  The page decides what its properties hold, so each is an arbitrary value.
\<close>

record element =
  duration :: jsval
  currentTime :: jsval
  ended :: jsval
  play :: play_call

section \<open>The page and the rest of the environment\<close>

datatype script = DurationJS string | PlayJS string | EndedJS string | PlayedJS string

datatype action = QuerySelector string | Evaluate script | Sleep nat | UtcNow

text \<open>
  One call on the page either raises (with the text \<^verbatim>\<open>str(e)\<close> of the exception) or
  runs against the document, in which the selector matches an element or nothing.
\<close>

datatype obs = Raises string | Dom "element option"

text \<open>
  The environment is an oracle on the history of actions performed so far, the action
  being answered last: any page, deterministic or not, whose state the calls, the sleeps
  and the passing of time change, is one such function. \<open>open_page\<close> stands for
  launching the browser, opening a page and navigating to the URL, \<open>close_browser\<close>
  for closing it; \<open>Some m\<close> is an exception with text \<open>m\<close>.
\<close>

record world =
  dom :: "action list \<Rightarrow> obs"
  utcnow :: "action list \<Rightarrow> string"
  open_page :: "string \<Rightarrow> string option"
  close_browser :: "action list \<Rightarrow> string option"

text \<open>
  Python's \<^verbatim>\<open>float\<close> and \<^verbatim>\<open>int\<close> on a string are builtins, not code of the repository:
  they are parameters. \<open>Inl m\<close> is the \<^verbatim>\<open>ValueError\<close> with text \<open>m\<close>.
\<close>

record builtins =
  float_str :: "string \<Rightarrow> string + pyfloat"
  int_str :: "string \<Rightarrow> string + int"

record config =
  VIDEO_SELECTOR :: string
  MAX_WAIT_SECONDS :: int

definition interact :: "world \<Rightarrow> action \<Rightarrow> action list \<Rightarrow> obs \<times> action list" where
  "interact W a tr = (dom W (tr @ [a]), tr @ [a])"

section \<open>The scripts evaluated in the page\<close>

text \<open>
  \<^verbatim>\<open>if (!v) return false; try { const p = v.play(); if (p && typeof p.then === 'function')
  { p.catch(...) } return true; } catch(e) { return false; }\<close>
\<close>

fun play_js :: "element option \<Rightarrow> bool" where
  "play_js None = False"
| "play_js (Some v) =
     (case play v of
        Throws \<Rightarrow> False
      | Returns NotThenable \<Rightarrow> True
      | Returns (Thenable c) \<Rightarrow> \<not> c)"

text \<open>\<^verbatim>\<open>return v ? !!v.ended : true;\<close>\<close>

fun ended_js :: "element option \<Rightarrow> bool" where
  "ended_js None = True"
| "ended_js (Some v) = js_truthy (ended v)"

text \<open>\<^verbatim>\<open>if (!v) return null; return v.currentTime || v.duration || null;\<close>\<close>

fun played_js :: "element option \<Rightarrow> jsval" where
  "played_js None = JNull"
| "played_js (Some v) =
     (if js_truthy (currentTime v) then currentTime v
      else if js_truthy (duration v) then duration v
      else JNull)"

section \<open>Python builtins used by the source\<close>

text \<open>\<^verbatim>\<open>float(x)\<close>: a number is itself, a \<^verbatim>\<open>bool\<close> is 1.0 or 0.0, a string is parsed,
  anything else is a \<^verbatim>\<open>TypeError\<close>.\<close>

definition float_type_error :: "string \<Rightarrow> string" where
  "float_type_error ty =
     ''float() argument must be a string or a real number, not '' @ [CHR 0x27] @ ty @ [CHR 0x27]"

fun py_float :: "builtins \<Rightarrow> jsval \<Rightarrow> string + pyfloat" where
  "py_float B (JNum x) = Inr x"
| "py_float B (JBool b) = Inr (Fin (if b then 1 else 0))"
| "py_float B (JStr s) = float_str B s"
| "py_float B (JObj ty) = Inl (float_type_error ty)"
| "py_float B JNull = Inl (float_type_error ''NoneType'')"
| "py_float B JUndefined = Inl (float_type_error ''NoneType'')"

text \<open>\<^verbatim>\<open>str(n)\<close> of an integer.\<close>

fun str_nat :: "nat \<Rightarrow> string" where
  "str_nat n =
     (if n < 10 then [''0123456789'' ! n]
      else str_nat (n div 10) @ [''0123456789'' ! (n mod 10)])"

definition str_int :: "int \<Rightarrow> string" where
  "str_int i = (if i < 0 then CHR ''-'' # str_nat (nat (- i)) else str_nat (nat i))"

text \<open>
  \<^verbatim>\<open>round(x, 2)\<close> of a float: the exact value rounded to two decimals, ties to the even
  neighbour (the conversion of the decimal back to the nearest double is not modelled);
  infinities and NaN are returned unchanged.
\<close>

definition round_half_even :: "rat \<Rightarrow> int" where
  "round_half_even y =
     (let f = \<lfloor>y\<rfloor>; d = y - of_int f
      in if d < 1 / 2 then f else if 1 / 2 < d then f + 1 else if even f then f else f + 1)"

fun py_round2 :: "pyfloat \<Rightarrow> pyfloat" where
  "py_round2 (Fin q) = Fin (of_int (round_half_even (q * 100)) / 100)"
| "py_round2 x = x"

text \<open>Truth value of \<^verbatim>\<open>duration\<close> in \<^verbatim>\<open>... if duration else None\<close>: \<^verbatim>\<open>None\<close> and 0.0 are
  false, every other float (NaN too) is true.\<close>

fun py_truthy :: "pyfloat option \<Rightarrow> bool" where
  "py_truthy None = False"
| "py_truthy (Some x) = (x \<noteq> Fin 0)"

section \<open>The Monitor: \<^verbatim>\<open>wait_for_video_end\<close>\<close>

type_synonym result = "string \<times> pyfloat option \<times> string"

definition no_video_note :: "string \<Rightarrow> string" where
  "no_video_note selector =
     ''No element matching selector '' @ [CHR 0x27] @ selector @ [CHR 0x27] @ '' found.''"

definition play_failed_note :: string where
  "play_failed_note = ''video element exists but play() could not start (autoplay blocked?).''"

definition timeout_note :: "int \<Rightarrow> string" where
  "timeout_note max_wait =
     ''Timed out after '' @ str_int max_wait @ '' seconds waiting for video to end.''"

definition error_note :: "string \<Rightarrow> string" where
  "error_note e = ''Exception while waiting for video end: '' @ e"

text \<open>
  The branch taken once a poll has seen \<open>ended\<close>: read the position back and return.
\<close>

definition read_played :: "world \<Rightarrow> builtins \<Rightarrow> string \<Rightarrow> action list
    \<Rightarrow> (string + result) \<times> action list" where
  "read_played W B selector tr =
     (case interact W (Evaluate (PlayedJS selector)) tr of
        (Raises m, tr') \<Rightarrow> (Inl m, tr')
      | (Dom v, tr') \<Rightarrow>
          (let played = played_js v in
           if is_not_None played then
             (case py_float B played of
                Inl m \<Rightarrow> (Inl m, tr')
              | Inr x \<Rightarrow> (Inr (''played'', Some x, ''Video ended normally.''), tr'))
           else (Inr (''played'', None, ''Video ended normally.''), tr')))"

text \<open>The \<^verbatim>\<open>while elapsed < max_wait\<close> loop, with \<^verbatim>\<open>poll = 1\<close>.\<close>

function poll_loop :: "world \<Rightarrow> builtins \<Rightarrow> string \<Rightarrow> int \<Rightarrow> int \<Rightarrow> action list
    \<Rightarrow> (string + result) \<times> action list" where
  "poll_loop W B selector max_wait elapsed tr =
     (if elapsed < max_wait then
        (case dom W (tr @ [Evaluate (EndedJS selector)]) of
           Raises m \<Rightarrow> (Inl m, tr @ [Evaluate (EndedJS selector)])
         | Dom v \<Rightarrow>
             if ended_js v then read_played W B selector (tr @ [Evaluate (EndedJS selector)])
             else poll_loop W B selector max_wait (elapsed + 1)
                    (tr @ [Evaluate (EndedJS selector), Sleep 1]))
      else (Inr (''timeout'', None, timeout_note max_wait), tr))"
  by pat_completeness auto
termination
  by (relation "measure (\<lambda>(W, B, selector, max_wait, elapsed, tr). nat (max_wait - elapsed))") auto

text \<open>\<^verbatim>\<open>max_wait = int(max_wait_seconds if max_wait_seconds > 0 else 600)\<close>\<close>

definition max_wait_of :: "int \<Rightarrow> int" where
  "max_wait_of max_wait_seconds = (if 0 < max_wait_seconds then max_wait_seconds else 600)"

text \<open>
  The body of the \<^verbatim>\<open>try\<close>: \<open>Inl m\<close> is an exception with text \<open>m\<close>. The value of
  the duration script (\<^verbatim>\<open>v.duration\<close> when finite, otherwise -1) is assigned and never
  read: the call counts only through the history and through its raising.
\<close>

definition wait_body :: "world \<Rightarrow> builtins \<Rightarrow> string \<Rightarrow> int \<Rightarrow> action list
    \<Rightarrow> (string + result) \<times> action list" where
  "wait_body W B selector max_wait_seconds tr =
     (case interact W (QuerySelector selector) tr of
        (Raises m, tr1) \<Rightarrow> (Inl m, tr1)
      | (Dom None, tr1) \<Rightarrow> (Inr (''no_video'', None, no_video_note selector), tr1)
      | (Dom (Some x), tr1) \<Rightarrow>
          (case interact W (Evaluate (DurationJS selector)) tr1 of
             (Raises m, tr2) \<Rightarrow> (Inl m, tr2)
           | (Dom d, tr2) \<Rightarrow>
               (case interact W (Evaluate (PlayJS selector)) tr2 of
                  (Raises m, tr3) \<Rightarrow> (Inl m, tr3)
                | (Dom v, tr3) \<Rightarrow>
                    if \<not> play_js v then (Inr (''play_failed'', None, play_failed_note), tr3)
                    else poll_loop W B selector (max_wait_of max_wait_seconds) 0 tr3)))"

text \<open>\<^verbatim>\<open>except Exception as e\<close>: every exception of the body becomes the outcome \<open>error\<close>.\<close>

definition wait_for_video_end :: "world \<Rightarrow> builtins \<Rightarrow> string \<Rightarrow> int \<Rightarrow> action list
    \<Rightarrow> result \<times> action list" where
  "wait_for_video_end W B selector max_wait_seconds tr =
     (case wait_body W B selector max_wait_seconds tr of
        (Inl e, tr') \<Rightarrow> ((''error'', None, error_note e), tr')
      | (Inr r, tr') \<Rightarrow> (r, tr'))"

section \<open>The Orchestrator: \<^verbatim>\<open>main\<close>\<close>

text \<open>One entry of \<^verbatim>\<open>results\<close>: the dictionary appended per trial.\<close>

record trial =
  run :: int
  start_time :: string
  end_time :: string
  duration_sec :: "pyfloat option"
  status :: string
  note_text :: string

text \<open>\<^verbatim>\<open>"duration_sec": round(duration, 2) if duration else None\<close>\<close>

definition make_record :: "int \<Rightarrow> string \<Rightarrow> string \<Rightarrow> result \<Rightarrow> trial" where
  "make_record i start_t end_t r =
     (case r of (st, dur, nt) \<Rightarrow>
        \<lparr>run = i + 1, start_time = start_t, end_time = end_t,
         duration_sec = (if py_truthy dur then map_option py_round2 dur else None),
         status = st, note_text = nt\<rparr>)"

text \<open>
  The body of \<^verbatim>\<open>for i in range(runs)\<close>, over the list of indices still to run;
  \<^verbatim>\<open>wait_for_video_end(page)\<close> takes the selector and the wait bound from the
  module-level configuration.
\<close>

fun trials :: "world \<Rightarrow> builtins \<Rightarrow> config \<Rightarrow> int list \<Rightarrow> trial list \<Rightarrow> action list
    \<Rightarrow> trial list \<times> action list" where
  "trials W B cfg [] results tr = (results, tr)"
| "trials W B cfg (i # rest) results tr =
     (let start_t = utcnow W (tr @ [UtcNow]);
          m = wait_for_video_end W B (VIDEO_SELECTOR cfg) (MAX_WAIT_SECONDS cfg) (tr @ [UtcNow]);
          end_t = utcnow W (snd m @ [UtcNow])
      in trials W B cfg rest (results @ [make_record i start_t end_t (fst m)]) (snd m @ [UtcNow]))"

text \<open>\<^verbatim>\<open>range(runs)\<close>\<close>

definition py_range :: "int \<Rightarrow> int list" where
  "py_range n = [0..n - 1]"

record request =
  url_param :: "string option"
  runs_param :: "string option"

text \<open>
  The body of a response is either a plain text or \<^verbatim>\<open>str(results)\<close>, which is kept as
  the list it renders.
\<close>

datatype body = Text string | Report "trial list"

record response =
  status_code :: nat
  content :: body

text \<open>\<^verbatim>\<open>int(req.params.get('runs', 5))\<close>\<close>

definition parse_runs :: "builtins \<Rightarrow> request \<Rightarrow> string + int" where
  "parse_runs B req = (case runs_param req of None \<Rightarrow> Inr 5 | Some s \<Rightarrow> int_str B s)"

text \<open>
  \<open>Inl m\<close> is an exception leaving \<^verbatim>\<open>main\<close> (only \<^verbatim>\<open>int\<close> can raise outside the
  \<^verbatim>\<open>try\<close>). \<^verbatim>\<open>log_to_blob\<close> catches its own failures and does not touch the
  response or the page; it is left out.
\<close>

definition main :: "world \<Rightarrow> builtins \<Rightarrow> config \<Rightarrow> request \<Rightarrow> (string + response) \<times> action list" where
  "main W B cfg req =
     (case parse_runs B req of
        Inl m \<Rightarrow> (Inl m, [])
      | Inr runs \<Rightarrow>
          (case url_param req of
             None \<Rightarrow> (Inr \<lparr>status_code = 400, content = Text ''No URL provided''\<rparr>, [])
           | Some url \<Rightarrow>
               if url = [] then (Inr \<lparr>status_code = 400, content = Text ''No URL provided''\<rparr>, [])
               else
                 (case open_page W url of
                    Some m \<Rightarrow>
                      (Inr \<lparr>status_code = 500, content = Text (''Error running Playwright: '' @ m)\<rparr>, [])
                  | None \<Rightarrow>
                      (case trials W B cfg (py_range runs) [] [] of
                         (results, tr) \<Rightarrow>
                           (case close_browser W tr of
                              Some m \<Rightarrow>
                                (Inr \<lparr>status_code = 500,
                                      content = Text (''Error running Playwright: '' @ m)\<rparr>, tr)
                            | None \<Rightarrow> (Inr \<lparr>status_code = 200, content = Report results\<rparr>, tr))))))"

section \<open>Histories of a run\<close>

text \<open>The three calls every run makes before it polls, and one round of the poll loop
  that has not seen the end.\<close>

definition preamble :: "string \<Rightarrow> action list" where
  "preamble selector =
     [QuerySelector selector, Evaluate (DurationJS selector), Evaluate (PlayJS selector)]"

definition poll_round :: "string \<Rightarrow> action list" where
  "poll_round selector = [Evaluate (EndedJS selector), Sleep 1]"

text \<open>From the history \<open>tr\<close>, the run finds the element and the play script returns true.\<close>

definition play_accepted :: "world \<Rightarrow> string \<Rightarrow> action list \<Rightarrow> bool" where
  "play_accepted W selector tr =
     ((\<exists>x. dom W (tr @ [QuerySelector selector]) = Dom (Some x)) \<and>
      (\<exists>d. dom W (tr @ [QuerySelector selector, Evaluate (DurationJS selector)]) = Dom d) \<and>
      (\<exists>v. dom W (tr @ preamble selector) = Dom v \<and> play_js v))"

text \<open>The first \<open>k\<close> polls after the history \<open>tr\<close> all see an element that has not ended.\<close>

definition never_ended :: "world \<Rightarrow> string \<Rightarrow> action list \<Rightarrow> nat \<Rightarrow> bool" where
  "never_ended W selector tr k =
     (\<forall>j<k. \<exists>v. dom W (tr @ concat (replicate j (poll_round selector)) @ [Evaluate (EndedJS selector)]) = Dom v
              \<and> \<not> ended_js v)"

fun is_query :: "action \<Rightarrow> bool" where
  "is_query (QuerySelector s) = True"
| "is_query a = False"

fun is_page_call :: "action \<Rightarrow> bool" where
  "is_page_call (QuerySelector s) = True"
| "is_page_call (Evaluate s) = True"
| "is_page_call a = False"

text \<open>Some document of the page shows an element whose position or duration converts to \<open>x\<close>.\<close>

definition reported :: "world \<Rightarrow> builtins \<Rightarrow> pyfloat \<Rightarrow> bool" where
  "reported W B x =
     (\<exists>h e. dom W h = Dom (Some e) \<and>
        (py_float B (currentTime e) = Inr x \<or> py_float B (duration e) = Inr x))"

text \<open>A run that sees the end at its first poll and reads the position back: five calls,
  no sleep.\<close>

definition first_poll_run :: "string \<Rightarrow> action list" where
  "first_poll_run selector =
     preamble selector @ [Evaluate (EndedJS selector), Evaluate (PlayedJS selector)]"

text \<open>
  From the history \<open>tr\<close>: the element is found, the play script returns true and the first
  poll sees an element whose \<open>ended\<close> is truthy.
\<close>

definition first_poll_seen_ended :: "world \<Rightarrow> string \<Rightarrow> action list \<Rightarrow> bool" where
  "first_poll_seen_ended W selector tr =
     (play_accepted W selector tr \<and>
      (\<exists>e. dom W (tr @ preamble selector @ [Evaluate (EndedJS selector)]) = Dom (Some e)
           \<and> js_truthy (ended e)))"

text \<open>
  The history of a run started at \<open>tr\<close>, up to and including its poll number \<open>k\<close>
  (counted from 0), when none of the earlier polls saw the end.
\<close>

definition poll_history :: "string \<Rightarrow> action list \<Rightarrow> nat \<Rightarrow> action list" where
  "poll_history selector tr k =
     tr @ preamble selector @ concat (replicate k (poll_round selector))
        @ [Evaluate (EndedJS selector)]"


text \<open>
  What the read-back gives when \<open>h\<close> is the history ending with its call: the exception
  raised by the call or by \<^verbatim>\<open>float\<close>, or else the duration the Monitor returns.
\<close>

definition read_back :: "world \<Rightarrow> builtins \<Rightarrow> action list \<Rightarrow> string + pyfloat option" where
  "read_back W B h =
     (case dom W h of
        Raises e \<Rightarrow> Inl e
      | Dom pv \<Rightarrow>
          if is_not_None (played_js pv) then map_sum id Some (py_float B (played_js pv))
          else Inr None)"

text \<open>A float that is not negative: a finite value at least 0, or the positive infinity.\<close>

fun nonneg :: "pyfloat \<Rightarrow> bool" where
  "nonneg (Fin q) = (0 \<le> q)"
| "nonneg PosInf = True"
| "nonneg NegInf = False"
| "nonneg NaN = False"

section \<open>One pass of the trial loop\<close>

text \<open>The body of the \<^verbatim>\<open>for\<close> loop of \<^verbatim>\<open>main\<close>: the record it appends and the history
  it leaves.\<close>

definition trial_step :: "world \<Rightarrow> builtins \<Rightarrow> config \<Rightarrow> int \<Rightarrow> action list \<Rightarrow> trial \<times> action list" where
  "trial_step W B cfg i tr =
     (let m = wait_for_video_end W B (VIDEO_SELECTOR cfg) (MAX_WAIT_SECONDS cfg) (tr @ [UtcNow])
      in (make_record i (utcnow W (tr @ [UtcNow])) (utcnow W (snd m @ [UtcNow])) (fst m),
          snd m @ [UtcNow]))"

text \<open>What the Monitor returned in each pass of the loop, in order, each with the history at
  its return.\<close>

fun monitor_runs :: "world \<Rightarrow> builtins \<Rightarrow> config \<Rightarrow> int list \<Rightarrow> action list
    \<Rightarrow> (result \<times> action list) list" where
  "monitor_runs W B cfg [] tr = []"
| "monitor_runs W B cfg (i # rest) tr =
     (let m = wait_for_video_end W B (VIDEO_SELECTOR cfg) (MAX_WAIT_SECONDS cfg) (tr @ [UtcNow])
      in m # monitor_runs W B cfg rest (snd m @ [UtcNow]))"

text \<open>
  The record \<open>t\<close> stands against the Monitor's return \<open>m\<close> of its own trial: the outcome
  is the Monitor's; an outcome other than \<open>played\<close> has no duration; with \<open>played\<close>,
  the run ended with the read-back call, the duration is null when that read-back gave
  null or zero and otherwise the rounding of the float it gave, and it is not negative
  when that float is not.
\<close>

definition record_of_run :: "world \<Rightarrow> builtins \<Rightarrow> string \<Rightarrow> trial \<Rightarrow> result \<times> action list \<Rightarrow> bool" where
  "record_of_run W B selector t m =
     (status t = fst (fst m) \<and>
      (status t \<noteq> ''played'' \<longrightarrow> duration_sec t = None) \<and>
      (status t = ''played'' \<longrightarrow>
         (\<exists>h0. snd m = h0 @ [Evaluate (PlayedJS selector)]) \<and>
         (\<exists>v. read_back W B (snd m) = Inr v \<and>
              duration_sec t =
                (case v of None \<Rightarrow> None
                 | Some x \<Rightarrow> if x = Fin 0 then None else Some (py_round2 x)) \<and>
              (\<forall>x y. v = Some x \<and> nonneg x \<and> duration_sec t = Some y \<longrightarrow> nonneg y))))"

section \<open>Sample pages and builtins\<close>

definition video :: "jsval \<Rightarrow> jsval \<Rightarrow> jsval \<Rightarrow> play_call \<Rightarrow> element" where
  "video d c e p = \<lparr>duration = d, currentTime = c, ended = e, play = p\<rparr>"

text \<open>A page that answers every call alike, with a fixed clock and a browser that opens and
  closes without error.\<close>

definition static_page :: "obs \<Rightarrow> world" where
  "static_page ob =
     \<lparr>dom = (\<lambda>h. ob), utcnow = (\<lambda>h. ''2024-01-01T00:00:00''),
      open_page = (\<lambda>u. None), close_browser = (\<lambda>h. None)\<rparr>"

text \<open>
  A fragment of the two builtins, for the examples: a string of decimal digits with an
  optional minus sign is read as Python reads it; every other string is rejected here
  (Python accepts more).
\<close>

fun digit_of :: "char \<Rightarrow> nat option" where
  "digit_of c =
     (let n = (of_char c :: nat) in if 48 \<le> n \<and> n \<le> 57 then Some (n - 48) else None)"

fun nat_of_digits :: "nat \<Rightarrow> string \<Rightarrow> nat option" where
  "nat_of_digits acc [] = Some acc"
| "nat_of_digits acc (c # cs) =
     (case digit_of c of None \<Rightarrow> None | Some d \<Rightarrow> nat_of_digits (10 * acc + d) cs)"

definition int_of_ascii :: "string \<Rightarrow> int option" where
  "int_of_ascii s =
     (case s of
        [] \<Rightarrow> None
      | c # cs \<Rightarrow>
          if c = CHR ''-'' then (if cs = [] then None else map_option (\<lambda>n. - int n) (nat_of_digits 0 cs))
          else map_option int (nat_of_digits 0 s))"

definition ascii_builtins :: builtins where
  "ascii_builtins =
     \<lparr>float_str = (\<lambda>s. case int_of_ascii s of
                      None \<Rightarrow> Inl (''could not convert string to float: '' @ [CHR 0x27] @ s @ [CHR 0x27])
                    | Some i \<Rightarrow> Inr (Fin (of_int i))),
      int_str = (\<lambda>s. case int_of_ascii s of
                      None \<Rightarrow> Inl (''invalid literal for int() with base 10: '' @ [CHR 0x27] @ s @ [CHR 0x27])
                    | Some i \<Rightarrow> Inr i)\<rparr>"

text \<open>The defaults of the module-level configuration, and a request with a URL.\<close>

definition default_config :: config where
  "default_config = \<lparr>VIDEO_SELECTOR = ''video'', MAX_WAIT_SECONDS = 600\<rparr>"

definition sample_request :: "string \<Rightarrow> request" where
  "sample_request runs = \<lparr>url_param = Some ''https://example.org/clip'', runs_param = Some runs\<rparr>"

text \<open>A page on which the duration script fails.\<close>

definition crashing_page :: world where
  "crashing_page =
     \<lparr>dom = (\<lambda>h. if h \<noteq> [] \<and> last h = Evaluate (DurationJS ''video'') then Raises ''Target closed''
                  else Dom (Some (video (JNum (Fin 30)) (JNum (Fin 0)) (JBool False) (Returns NotThenable)))),
      utcnow = (\<lambda>h. ''2024-01-01T00:00:00''),
      open_page = (\<lambda>u. None), close_browser = (\<lambda>h. None)\<rparr>"



text \<open>A page whose video has already ended, with the given duration and position.\<close>

definition ended_video :: "jsval \<Rightarrow> jsval \<Rightarrow> world" where
  "ended_video d c = static_page (Dom (Some (video d c (JBool True) (Returns (Thenable False)))))"

text \<open>A page whose video never ends.\<close>

definition stalled_page :: world where
  "stalled_page =
     static_page (Dom (Some (video (JNum (Fin 30)) (JNum (Fin 0)) (JBool False) (Returns (Thenable False)))))"

text \<open>A page whose video has ended and whose read-back call fails.\<close>

definition readback_crash_page :: world where
  "readback_crash_page =
     \<lparr>dom = (\<lambda>h. if h \<noteq> [] \<and> last h = Evaluate (PlayedJS ''video'')
                  then Raises ''Execution context was destroyed''
                  else Dom (Some (video (JNum (Fin 30)) (JNum (Fin 30)) (JBool True) (Returns (Thenable False))))),
      utcnow = (\<lambda>h. ''2024-01-01T00:00:00''),
      open_page = (\<lambda>u. None), close_browser = (\<lambda>h. None)\<rparr>"

text \<open>The sample builtins with Python's reading of "nan" added.\<close>

definition nan_builtins :: builtins where
  "nan_builtins =
     \<lparr>float_str = (\<lambda>s. if s = ''nan'' then Inr NaN else float_str ascii_builtins s),
      int_str = int_str ascii_builtins\<rparr>"

section \<open>Lemmas on the Monitor\<close>

declare poll_loop.simps [simp del]

lemma poll_loop_not_ended:
  assumes "elapsed < max_wait"
    and "dom W (tr @ [Evaluate (EndedJS selector)]) = Dom v"
    and "\<not> ended_js v"
  shows "poll_loop W B selector max_wait elapsed tr =
         poll_loop W B selector max_wait (elapsed + 1) (tr @ poll_round selector)"
  using assms by (subst poll_loop.simps) (simp add: poll_round_def)

lemma poll_loop_ended:
  assumes "elapsed < max_wait"
    and "dom W (tr @ [Evaluate (EndedJS selector)]) = Dom v"
    and "ended_js v"
  shows "poll_loop W B selector max_wait elapsed tr =
         read_played W B selector (tr @ [Evaluate (EndedJS selector)])"
  using assms by (subst poll_loop.simps) simp

lemma poll_loop_raises:
  assumes "elapsed < max_wait"
    and "dom W (tr @ [Evaluate (EndedJS selector)]) = Raises m"
  shows "poll_loop W B selector max_wait elapsed tr = (Inl m, tr @ [Evaluate (EndedJS selector)])"
  using assms by (subst poll_loop.simps) simp

lemma poll_loop_timeout:
  assumes "\<not> elapsed < max_wait"
  shows "poll_loop W B selector max_wait elapsed tr =
         (Inr (''timeout'', None, timeout_note max_wait), tr)"
  using assms by (subst poll_loop.simps) simp

lemma poll_loop_skip:
  assumes "\<forall>j<k. \<exists>v. dom W (tr @ concat (replicate j (poll_round selector)) @ [Evaluate (EndedJS selector)]) = Dom v
              \<and> \<not> ended_js v"
    and "elapsed + int k \<le> max_wait"
  shows "poll_loop W B selector max_wait elapsed tr =
         poll_loop W B selector max_wait (elapsed + int k)
           (tr @ concat (replicate k (poll_round selector)))"
  using assms
proof (induction k arbitrary: elapsed tr)
  case 0
  then show ?case by simp
next
  case (Suc k)
  from Suc.prems(1) have "\<exists>v. dom W (tr @ concat (replicate 0 (poll_round selector)) @ [Evaluate (EndedJS selector)]) = Dom v
              \<and> \<not> ended_js v"
    by blast
  then obtain v where v: "dom W (tr @ [Evaluate (EndedJS selector)]) = Dom v" "\<not> ended_js v"
    by auto
  from Suc.prems(2) have lt: "elapsed < max_wait" by simp
  have step: "poll_loop W B selector max_wait elapsed tr =
         poll_loop W B selector max_wait (elapsed + 1) (tr @ poll_round selector)"
    using poll_loop_not_ended [OF lt v] .
  have hyp: "\<forall>j<k. \<exists>v. dom W ((tr @ poll_round selector) @ concat (replicate j (poll_round selector)) @ [Evaluate (EndedJS selector)]) = Dom v
              \<and> \<not> ended_js v"
  proof (intro allI impI)
    fix j assume "j < k"
    then have "Suc j < Suc k" by simp
    with Suc.prems(1) have "\<exists>v. dom W (tr @ concat (replicate (Suc j) (poll_round selector)) @ [Evaluate (EndedJS selector)]) = Dom v
              \<and> \<not> ended_js v" by blast
    then show "\<exists>v. dom W ((tr @ poll_round selector) @ concat (replicate j (poll_round selector)) @ [Evaluate (EndedJS selector)]) = Dom v
              \<and> \<not> ended_js v" by simp
  qed
  have le: "(elapsed + 1) + int k \<le> max_wait" using Suc.prems(2) by simp
  have "poll_loop W B selector max_wait (elapsed + 1) (tr @ poll_round selector) =
        poll_loop W B selector max_wait ((elapsed + 1) + int k)
           ((tr @ poll_round selector) @ concat (replicate k (poll_round selector)))"
    using Suc.IH [OF hyp le] .
  moreover have "elapsed + 1 + int k = elapsed + int (Suc k)" by simp
  moreover have "(tr @ poll_round selector) @ concat (replicate k (poll_round selector)) =
        tr @ concat (replicate (Suc k) (poll_round selector))" by simp
  ultimately show ?case using step by metis
qed

lemma wait_body_started:
  assumes "play_accepted W selector tr"
  shows "wait_body W B selector m tr =
         poll_loop W B selector (max_wait_of m) 0 (tr @ preamble selector)"
  using assms
  by (auto simp: play_accepted_def wait_body_def interact_def preamble_def)

lemma max_wait_of_pos: "0 < max_wait_of m"
  by (simp add: max_wait_of_def)

lemma js_truthy_not_None: "js_truthy v \<Longrightarrow> is_not_None v"
  by (cases v) auto

lemma read_played_trace: "snd (read_played W B selector tr) = tr @ [Evaluate (PlayedJS selector)]"
  by (simp add: read_played_def interact_def Let_def split: obs.splits sum.splits)

lemma poll_loop_trace:
  "\<exists>ext. snd (poll_loop W B selector max_wait elapsed tr) = tr @ ext \<and> filter is_query ext = []"
proof (induction W B selector max_wait elapsed tr rule: poll_loop.induct)
  case (1 W B selector max_wait elapsed tr)
  show ?case
  proof (cases "elapsed < max_wait")
    case False
    then show ?thesis by (simp add: poll_loop_timeout)
  next
    case True
    show ?thesis
    proof (cases "dom W (tr @ [Evaluate (EndedJS selector)])")
      case (Raises m)
      then show ?thesis by (simp add: poll_loop_raises [OF True])
    next
      case (Dom v)
      show ?thesis
      proof (cases "ended_js v")
        case e: True
        show ?thesis
          by (simp add: poll_loop_ended [OF True Dom e] read_played_trace)
      next
        case e: False
        from "1.IH" [OF True Dom e] obtain ext where
          "snd (poll_loop W B selector max_wait (elapsed + 1)
                 (tr @ [Evaluate (EndedJS selector), Sleep 1])) =
           (tr @ [Evaluate (EndedJS selector), Sleep 1]) @ ext" "filter is_query ext = []"
          by blast
        then show ?thesis
          by (simp add: poll_loop_not_ended [OF True Dom e] poll_round_def)
      qed
    qed
  qed
qed

lemma wait_for_video_end_trace:
  "\<exists>ext. snd (wait_for_video_end W B selector m tr) = tr @ QuerySelector selector # ext
         \<and> filter is_query ext = []"
proof -
  obtain ext where ext:
    "snd (poll_loop W B selector (max_wait_of m) 0 (tr @ preamble selector)) =
       (tr @ preamble selector) @ ext" "filter is_query ext = []"
    using poll_loop_trace by blast
  have "snd (wait_for_video_end W B selector m tr) = snd (wait_body W B selector m tr)"
    by (simp add: wait_for_video_end_def split: prod.splits sum.splits)
  then show ?thesis using ext
    by (auto simp: wait_body_def interact_def preamble_def
             split: obs.splits option.splits)
qed

lemma read_played_result:
  assumes "read_played W B selector tr = (Inr r, tr')"
  shows "\<exists>d. r = (''played'', d, ''Video ended normally.'') \<and>
             (d = None \<or> (\<exists>x. d = Some x \<and> reported W B x))"
proof (cases "dom W (tr @ [Evaluate (PlayedJS selector)])")
  case (Raises m)
  with assms show ?thesis by (simp add: read_played_def interact_def)
next
  case (Dom pv)
  show ?thesis
  proof (cases pv)
    case None
    with Dom assms show ?thesis by (auto simp: read_played_def interact_def)
  next
    case (Some e)
    show ?thesis
    proof (cases "is_not_None (played_js pv)")
      case False
      with Dom assms show ?thesis by (auto simp: read_played_def interact_def Let_def)
    next
      case True
      with Dom assms obtain x where x: "py_float B (played_js pv) = Inr x"
        and r: "r = (''played'', Some x, ''Video ended normally.'')"
        by (auto simp: read_played_def interact_def Let_def split: sum.splits)
      from True x Some have "py_float B (currentTime e) = Inr x \<or> py_float B (duration e) = Inr x"
        by (auto split: if_splits)
      with Dom Some have "reported W B x" unfolding reported_def by blast
      with r show ?thesis by simp
    qed
  qed
qed

lemma poll_loop_result:
  "poll_loop W B selector max_wait elapsed tr = (Inr r, tr') \<Longrightarrow>
     r = (''timeout'', None, timeout_note max_wait) \<or>
     (\<exists>d. r = (''played'', d, ''Video ended normally.'') \<and>
          (d = None \<or> (\<exists>x. d = Some x \<and> reported W B x)))"
proof (induction W B selector max_wait elapsed tr rule: poll_loop.induct)
  case (1 W B selector max_wait elapsed tr)
  show ?case
  proof (cases "elapsed < max_wait")
    case False
    with "1.prems" show ?thesis by (simp add: poll_loop_timeout)
  next
    case True
    show ?thesis
    proof (cases "dom W (tr @ [Evaluate (EndedJS selector)])")
      case (Raises m)
      with "1.prems" show ?thesis by (simp add: poll_loop_raises [OF True])
    next
      case (Dom v)
      show ?thesis
      proof (cases "ended_js v")
        case e: True
        from "1.prems" have "read_played W B selector (tr @ [Evaluate (EndedJS selector)]) = (Inr r, tr')"
          by (simp add: poll_loop_ended [OF True Dom e])
        from read_played_result [OF this] show ?thesis by blast
      next
        case e: False
        from "1.prems" have "poll_loop W B selector max_wait (elapsed + 1)
                 (tr @ [Evaluate (EndedJS selector), Sleep 1]) = (Inr r, tr')"
          by (simp add: poll_loop_not_ended [OF True Dom e] poll_round_def)
        from "1.IH" [OF True Dom e this] show ?thesis .
      qed
    qed
  qed
qed

lemma wait_body_cases:
  assumes "wait_body W B selector m tr = (res, t)"
  obtains
    (query_raises) e where "dom W (tr @ [QuerySelector selector]) = Raises e" "res = Inl e"
      "t = tr @ [QuerySelector selector]"
  | (no_video) "dom W (tr @ [QuerySelector selector]) = Dom None"
      "res = Inr (''no_video'', None, no_video_note selector)" "t = tr @ [QuerySelector selector]"
  | (duration_raises) x e where "dom W (tr @ [QuerySelector selector]) = Dom (Some x)"
      "dom W (tr @ [QuerySelector selector, Evaluate (DurationJS selector)]) = Raises e"
      "res = Inl e" "t = tr @ [QuerySelector selector, Evaluate (DurationJS selector)]"
  | (play_raises) x d e where "dom W (tr @ [QuerySelector selector]) = Dom (Some x)"
      "dom W (tr @ [QuerySelector selector, Evaluate (DurationJS selector)]) = Dom d"
      "dom W (tr @ preamble selector) = Raises e"
      "res = Inl e" "t = tr @ preamble selector"
  | (play_failed) x d v where "dom W (tr @ [QuerySelector selector]) = Dom (Some x)"
      "dom W (tr @ [QuerySelector selector, Evaluate (DurationJS selector)]) = Dom d"
      "dom W (tr @ preamble selector) = Dom v" "\<not> play_js v"
      "res = Inr (''play_failed'', None, play_failed_note)" "t = tr @ preamble selector"
  | (polling) x d v where "dom W (tr @ [QuerySelector selector]) = Dom (Some x)"
      "dom W (tr @ [QuerySelector selector, Evaluate (DurationJS selector)]) = Dom d"
      "dom W (tr @ preamble selector) = Dom v" "play_js v"
      "poll_loop W B selector (max_wait_of m) 0 (tr @ preamble selector) = (res, t)"
proof (cases "dom W (tr @ [QuerySelector selector])")
  case (Raises e)
  with assms have a: "res = Inl e" and b: "t = tr @ [QuerySelector selector]"
    by (simp_all add: wait_body_def interact_def)
  show ?thesis by (rule query_raises [OF Raises a b])
next
  case q0: (Dom qv)
  show ?thesis
  proof (cases qv)
    case None
    note q = q0 [unfolded None]
    with assms have a: "res = Inr (''no_video'', None, no_video_note selector)"
      and b: "t = tr @ [QuerySelector selector]"
      by (simp_all add: wait_body_def interact_def)
    show ?thesis by (rule no_video [OF q a b])
  next
    case (Some x)
    note q = q0 [unfolded Some]
    show ?thesis
    proof (cases "dom W (tr @ [QuerySelector selector, Evaluate (DurationJS selector)])")
      case (Raises e)
      with q assms have a: "res = Inl e"
        and b: "t = tr @ [QuerySelector selector, Evaluate (DurationJS selector)]"
        by (simp_all add: wait_body_def interact_def)
      show ?thesis by (rule duration_raises [OF q Raises a b])
    next
      case d: (Dom d)
      show ?thesis
      proof (cases "dom W (tr @ preamble selector)")
        case (Raises e)
        with q d assms have a: "res = Inl e" and b: "t = tr @ preamble selector"
          by (simp_all add: wait_body_def interact_def preamble_def)
        show ?thesis by (rule play_raises [OF q d Raises a b])
      next
        case p: (Dom v)
        show ?thesis
        proof (cases "play_js v")
          case False
          with q d p assms have a: "res = Inr (''play_failed'', None, play_failed_note)"
            and b: "t = tr @ preamble selector"
            by (simp_all add: wait_body_def interact_def preamble_def)
          show ?thesis by (rule play_failed [OF q d p False a b])
        next
          case True
          with q d p assms
          have a: "poll_loop W B selector (max_wait_of m) 0 (tr @ preamble selector) = (res, t)"
            by (simp add: wait_body_def interact_def preamble_def)
          show ?thesis by (rule polling [OF q d p True a])
        qed
      qed
    qed
  qed
qed

lemma sp_snoc: "strict_prefix tr h \<Longrightarrow> prefix h (tr @ [a]) \<Longrightarrow> h = tr @ [a]"
  by (auto simp: prefix_snoc strict_prefix_def)

lemma sp_snoc2:
  "strict_prefix tr h \<Longrightarrow> prefix h (tr @ [a, b]) \<Longrightarrow> h = tr @ [a] \<or> h = tr @ [a, b]"
proof -
  assume sp: "strict_prefix tr h" and p: "prefix h (tr @ [a, b])"
  have "tr @ [a, b] = (tr @ [a]) @ [b]" by simp
  with p have "h = (tr @ [a]) @ [b] \<or> prefix h (tr @ [a])" by (simp only: prefix_snoc)
  with sp show ?thesis by (auto dest: sp_snoc)
qed

lemma sp_extend:
  assumes "strict_prefix tr h" "prefix h t" "prefix k t"
  shows "prefix h k \<or> strict_prefix k h"
  using assms prefix_same_cases [of h t k] by (auto simp: strict_prefix_def)

lemma read_played_raise:
  assumes "read_played W B selector tr = (res, tr')"
    and "strict_prefix tr h" "prefix h tr'" "dom W h = Raises e"
  shows "h = tr' \<and> res = Inl e"
proof -
  have t: "tr' = tr @ [Evaluate (PlayedJS selector)]"
    using read_played_trace [of W B selector tr] assms(1) by simp
  with assms have h: "h = tr @ [Evaluate (PlayedJS selector)]" by (auto dest: sp_snoc)
  with assms(1,4) have "res = Inl e" by (simp add: read_played_def interact_def)
  with h t show ?thesis by simp
qed

lemma poll_loop_raise:
  "poll_loop W B selector max_wait elapsed tr = (res, tr') \<Longrightarrow> strict_prefix tr h \<Longrightarrow>
   prefix h tr' \<Longrightarrow> is_page_call (last h) \<Longrightarrow> dom W h = Raises e \<Longrightarrow> h = tr' \<and> res = Inl e"
proof (induction W B selector max_wait elapsed tr rule: poll_loop.induct)
  case (1 W B selector max_wait elapsed tr)
  note run = "1.prems"(1) and sp = "1.prems"(2) and pre = "1.prems"(3)
    and pc = "1.prems"(4) and rs = "1.prems"(5)
  show ?case
  proof (cases "elapsed < max_wait")
    case False
    with run have "tr' = tr" by (simp add: poll_loop_timeout)
    with sp pre show ?thesis by (auto simp: strict_prefix_def)
  next
    case True
    show ?thesis
    proof (cases "dom W (tr @ [Evaluate (EndedJS selector)])")
      case (Raises m)
      with run have r: "res = Inl m" "tr' = tr @ [Evaluate (EndedJS selector)]"
        by (simp_all add: poll_loop_raises [OF True])
      with sp pre have "h = tr @ [Evaluate (EndedJS selector)]" by (auto dest: sp_snoc)
      with r Raises rs show ?thesis by simp
    next
      case (Dom v)
      show ?thesis
      proof (cases "ended_js v")
        case e: True
        from run have rp: "read_played W B selector (tr @ [Evaluate (EndedJS selector)]) = (res, tr')"
          by (simp add: poll_loop_ended [OF True Dom e])
        then have t: "tr' = tr @ [Evaluate (EndedJS selector), Evaluate (PlayedJS selector)]"
          using read_played_trace [of W B selector "tr @ [Evaluate (EndedJS selector)]"] by simp
        with sp pre have "h = tr @ [Evaluate (EndedJS selector)] \<or> h = tr'"
          by (auto dest: sp_snoc2)
        with Dom rs have h: "h = tr'" by auto
        have "strict_prefix (tr @ [Evaluate (EndedJS selector)]) tr'"
          unfolding t by (simp add: strict_prefix_def)
        with read_played_raise [OF rp _ _ rs] h show ?thesis by simp
      next
        case e: False
        let ?t2 = "tr @ [Evaluate (EndedJS selector), Sleep 1]"
        from run have rec: "poll_loop W B selector max_wait (elapsed + 1) ?t2 = (res, tr')"
          by (simp add: poll_loop_not_ended [OF True Dom e] poll_round_def)
        obtain ext where "snd (poll_loop W B selector max_wait (elapsed + 1) ?t2) = ?t2 @ ext"
          using poll_loop_trace by blast
        with rec have "prefix ?t2 tr'" by simp
        from sp_extend [OF sp pre this] show ?thesis
        proof
          assume "prefix h ?t2"
          with sp have "h = tr @ [Evaluate (EndedJS selector)] \<or> h = ?t2" by (rule sp_snoc2)
          with Dom rs pc show ?thesis by auto
        next
          assume "strict_prefix ?t2 h"
          from "1.IH" [OF True Dom e rec this pre pc rs] show ?thesis .
        qed
      qed
    qed
  qed
qed

lemma sp_snoc3:
  assumes "strict_prefix tr h" "prefix h (tr @ [a, b, c])"
  shows "h = tr @ [a] \<or> h = tr @ [a, b] \<or> h = tr @ [a, b, c]"
proof -
  have "tr @ [a, b, c] = (tr @ [a, b]) @ [c]" by simp
  with assms(2) have "h = tr @ [a, b, c] \<or> prefix h (tr @ [a, b])" by (simp only: prefix_snoc)
  with assms(1) show ?thesis by (auto dest: sp_snoc2)
qed

lemma wait_for_video_end_body:
  assumes "wait_for_video_end W B selector m tr = (r, tr')"
  obtains res where "wait_body W B selector m tr = (res, tr')"
    and "r = (case res of Inl e \<Rightarrow> (''error'', None, error_note e) | Inr x \<Rightarrow> x)"
proof (cases "wait_body W B selector m tr")
  case (Pair res t)
  with assms have "t = tr'" and "r = (case res of Inl e \<Rightarrow> (''error'', None, error_note e) | Inr x \<Rightarrow> x)"
    by (auto simp: wait_for_video_end_def split: sum.splits)
  with Pair that show ?thesis by simp
qed

lemma wait_body_raise:
  assumes run: "wait_body W B selector m tr = (res, tr')"
    and sp: "strict_prefix tr h" and pre: "prefix h tr'"
    and pc: "is_page_call (last h)" and rs: "dom W h = Raises e"
  shows "h = tr' \<and> res = Inl e"
  using run
proof (cases rule: wait_body_cases)
  case (query_raises e')
  with sp pre have "h = tr @ [QuerySelector selector]" by (auto dest: sp_snoc)
  with query_raises rs show ?thesis by simp
next
  case no_video
  with sp pre have "h = tr @ [QuerySelector selector]" by (auto dest: sp_snoc)
  with no_video rs show ?thesis by simp
next
  case (duration_raises x e')
  with sp pre have "h = tr @ [QuerySelector selector] \<or> h = tr'" by (auto dest: sp_snoc2)
  with duration_raises rs show ?thesis by auto
next
  case (play_raises x d e')
  with sp pre have "h = tr @ [QuerySelector selector]
      \<or> h = tr @ [QuerySelector selector, Evaluate (DurationJS selector)] \<or> h = tr'"
    by (auto simp: preamble_def dest: sp_snoc3)
  with play_raises rs show ?thesis by auto
next
  case (play_failed x d v)
  with sp pre have "h = tr @ [QuerySelector selector]
      \<or> h = tr @ [QuerySelector selector, Evaluate (DurationJS selector)] \<or> h = tr @ preamble selector"
    by (auto simp: preamble_def dest: sp_snoc3)
  with play_failed rs show ?thesis by auto
next
  case (polling x d v)
  obtain ext where "snd (poll_loop W B selector (max_wait_of m) 0 (tr @ preamble selector)) =
      (tr @ preamble selector) @ ext"
    using poll_loop_trace by blast
  with polling(5) have "prefix (tr @ preamble selector) tr'" by simp
  from sp_extend [OF sp pre this] show ?thesis
  proof
    assume "prefix h (tr @ preamble selector)"
    with sp have "h = tr @ [QuerySelector selector]
      \<or> h = tr @ [QuerySelector selector, Evaluate (DurationJS selector)] \<or> h = tr @ preamble selector"
      by (auto simp: preamble_def dest: sp_snoc3)
    with polling rs show ?thesis by auto
  next
    assume "strict_prefix (tr @ preamble selector) h"
    from poll_loop_raise [OF polling(5) this pre pc rs] show ?thesis .
  qed
qed

lemma wait_body_status:
  assumes "wait_body W B selector m tr = (Inr r, tr')"
  shows "fst r = ''no_video'' \<or> fst r = ''play_failed'' \<or> fst r = ''played'' \<or> fst r = ''timeout''"
  using assms
proof (cases rule: wait_body_cases)
  case (polling x d v)
  from poll_loop_result [OF polling(5)] show ?thesis by auto
qed simp_all

lemma wait_for_video_end_result:
  assumes "wait_for_video_end W B selector m tr = (r, tr')"
  shows "(fst r \<noteq> ''played'' \<and> fst (snd r) = None) \<or>
         (\<exists>d. r = (''played'', d, ''Video ended normally.'') \<and>
              (d = None \<or> (\<exists>x. d = Some x \<and> reported W B x)))"
proof -
  from assms obtain res where body: "wait_body W B selector m tr = (res, tr')"
    and r: "r = (case res of Inl e \<Rightarrow> (''error'', None, error_note e) | Inr x \<Rightarrow> x)"
    by (rule wait_for_video_end_body)
  from body show ?thesis
  proof (cases rule: wait_body_cases)
    case (polling x d v)
    show ?thesis
    proof (cases res)
      case (Inl e)
      with r show ?thesis by simp
    next
      case (Inr y)
      with r have "y = r" by simp
      with polling(5) Inr have "poll_loop W B selector (max_wait_of m) 0 (tr @ preamble selector) = (Inr r, tr')"
        by simp
      from poll_loop_result [OF this] show ?thesis by auto
    qed
  qed (use r in simp_all)
qed

lemma read_played_read_back:
  "read_played W B selector tr =
     (case read_back W B (tr @ [Evaluate (PlayedJS selector)]) of
        Inl e \<Rightarrow> (Inl e, tr @ [Evaluate (PlayedJS selector)])
      | Inr d \<Rightarrow> (Inr (''played'', d, ''Video ended normally.''), tr @ [Evaluate (PlayedJS selector)]))"
  by (simp add: read_played_def read_back_def interact_def Let_def split: obs.splits sum.splits)

lemma wait_for_video_end_ended:
  assumes acc: "play_accepted W selector tr"
    and ne: "never_ended W selector (tr @ preamble selector) k"
    and k: "int k < (if 0 < m then m else 600)"
    and en: "dom W (tr @ preamble selector @ concat (replicate k (poll_round selector))
                    @ [Evaluate (EndedJS selector)]) = Dom v" "ended_js v"
  shows "wait_for_video_end W B selector m tr =
         (case read_back W B (tr @ preamble selector @ concat (replicate k (poll_round selector))
                    @ [Evaluate (EndedJS selector), Evaluate (PlayedJS selector)]) of
            Inl e \<Rightarrow> (''error'', None, ''Exception while waiting for video end: '' @ e)
          | Inr d \<Rightarrow> (''played'', d, ''Video ended normally.''),
          tr @ preamble selector @ concat (replicate k (poll_round selector))
             @ [Evaluate (EndedJS selector), Evaluate (PlayedJS selector)])"
proof -
  let ?M = "max_wait_of m"
  let ?h = "(tr @ preamble selector) @ concat (replicate k (poll_round selector))"
  have le: "0 + int k \<le> ?M" using k by (simp add: max_wait_of_def)
  have lt: "0 + int k < ?M" using k by (simp add: max_wait_of_def)
  have "poll_loop W B selector ?M 0 (tr @ preamble selector) =
        poll_loop W B selector ?M (0 + int k) ?h"
    using poll_loop_skip [OF ne [unfolded never_ended_def] le] .
  also have "\<dots> = read_played W B selector (?h @ [Evaluate (EndedJS selector)])"
    by (rule poll_loop_ended [OF lt _ en(2)]) (use en(1) in simp)
  finally show ?thesis
    by (simp add: wait_for_video_end_def wait_body_started [OF acc] read_played_read_back
          error_note_def split: sum.splits)
qed

lemma wait_for_video_end_at_poll:
  assumes "play_accepted W selector tr"
    and "never_ended W selector (tr @ preamble selector) k"
    and "int k < (if 0 < m then m else 600)"
    and "dom W (poll_history selector tr k) = Dom v" and "ended_js v"
  shows "wait_for_video_end W B selector m tr =
         (case read_back W B (poll_history selector tr k @ [Evaluate (PlayedJS selector)]) of
            Inl e \<Rightarrow> (''error'', None, ''Exception while waiting for video end: '' @ e)
          | Inr d \<Rightarrow> (''played'', d, ''Video ended normally.''),
          poll_history selector tr k @ [Evaluate (PlayedJS selector)])"
  using wait_for_video_end_ended [OF assms(1-3) assms(4) [unfolded poll_history_def] assms(5), of B]
  by (simp add: poll_history_def)

lemma read_played_played:
  assumes "read_played W B selector tr = (Inr r, tr')"
  shows "tr' = tr @ [Evaluate (PlayedJS selector)] \<and> read_back W B tr' = Inr (fst (snd r))"
  using assms unfolding read_played_read_back by (auto split: sum.splits)

lemma poll_loop_played:
  "poll_loop W B selector max_wait elapsed tr = (Inr r, tr') \<Longrightarrow> fst r = ''played'' \<Longrightarrow>
     (\<exists>h0. tr' = h0 @ [Evaluate (PlayedJS selector)]) \<and> read_back W B tr' = Inr (fst (snd r))"
proof (induction W B selector max_wait elapsed tr rule: poll_loop.induct)
  case (1 W B selector max_wait elapsed tr)
  show ?case
  proof (cases "elapsed < max_wait")
    case False
    with "1.prems"(1) have "r = (''timeout'', None, timeout_note max_wait)"
      by (simp add: poll_loop_timeout)
    with "1.prems"(2) show ?thesis by simp
  next
    case True
    show ?thesis
    proof (cases "dom W (tr @ [Evaluate (EndedJS selector)])")
      case (Raises m)
      with "1.prems"(1) show ?thesis by (simp add: poll_loop_raises [OF True])
    next
      case (Dom v)
      show ?thesis
      proof (cases "ended_js v")
        case e: True
        from "1.prems"(1) have "read_played W B selector (tr @ [Evaluate (EndedJS selector)]) = (Inr r, tr')"
          by (simp add: poll_loop_ended [OF True Dom e])
        from read_played_played [OF this] show ?thesis by blast
      next
        case e: False
        from "1.prems"(1) have "poll_loop W B selector max_wait (elapsed + 1)
                 (tr @ [Evaluate (EndedJS selector), Sleep 1]) = (Inr r, tr')"
          by (simp add: poll_loop_not_ended [OF True Dom e] poll_round_def)
        from "1.IH" [OF True Dom e this "1.prems"(2)] show ?thesis .
      qed
    qed
  qed
qed

lemma wait_for_video_end_played_run:
  assumes "wait_for_video_end W B selector m tr = (r, h)" and "fst r = ''played''"
  shows "(\<exists>h0. h = h0 @ [Evaluate (PlayedJS selector)]) \<and> read_back W B h = Inr (fst (snd r))"
proof -
  from assms(1) obtain res where body: "wait_body W B selector m tr = (res, h)"
    and r: "r = (case res of Inl e \<Rightarrow> (''error'', None, error_note e) | Inr x \<Rightarrow> x)"
    by (rule wait_for_video_end_body)
  from assms(2) r obtain y where res: "res = Inr y" and y: "y = r"
    by (cases res) auto
  from body show ?thesis
  proof (cases rule: wait_body_cases)
    case (polling x d v)
    with res y have "poll_loop W B selector (max_wait_of m) 0 (tr @ preamble selector) = (Inr r, h)"
      by simp
    from poll_loop_played [OF this assms(2)] show ?thesis .
  qed (use res y assms(2) in simp_all)
qed

lemma wait_for_video_end_not_played:
  assumes "wait_for_video_end W B selector m tr = (r, h)" and "fst r \<noteq> ''played''"
  shows "fst (snd r) = None"
  using wait_for_video_end_result [OF assms(1)] assms(2) by auto

section \<open>Lemmas on the Orchestrator\<close>

lemma trials_Cons:
  "trials W B cfg (i # rest) rs tr =
     trials W B cfg rest (rs @ [fst (trial_step W B cfg i tr)]) (snd (trial_step W B cfg i tr))"
  by (simp add: trial_step_def Let_def)

declare trials.simps(2) [simp del]

lemma trials_results:
  "trials W B cfg idx rs tr =
     (rs @ fst (trials W B cfg idx [] tr), snd (trials W B cfg idx [] tr))"
proof (induction idx arbitrary: rs tr)
  case Nil
  show ?case by simp
next
  case (Cons i rest)
  let ?s = "trial_step W B cfg i tr"
  have "trials W B cfg (i # rest) rs tr = trials W B cfg rest (rs @ [fst ?s]) (snd ?s)"
    by (rule trials_Cons)
  also have "\<dots> = ((rs @ [fst ?s]) @ fst (trials W B cfg rest [] (snd ?s)),
                    snd (trials W B cfg rest [] (snd ?s)))"
    by (rule Cons.IH)
  finally have a: "trials W B cfg (i # rest) rs tr =
      (rs @ fst ?s # fst (trials W B cfg rest [] (snd ?s)), snd (trials W B cfg rest [] (snd ?s)))"
    by simp
  have "trials W B cfg (i # rest) [] tr = trials W B cfg rest ([] @ [fst ?s]) (snd ?s)"
    by (rule trials_Cons)
  also have "\<dots> = (([] @ [fst ?s]) @ fst (trials W B cfg rest [] (snd ?s)),
                    snd (trials W B cfg rest [] (snd ?s)))"
    by (rule Cons.IH)
  finally have b: "trials W B cfg (i # rest) [] tr =
      (fst ?s # fst (trials W B cfg rest [] (snd ?s)), snd (trials W B cfg rest [] (snd ?s)))"
    by simp
  from a b show ?case by simp
qed

lemma trials_step:
  "trials W B cfg (i # rest) [] tr =
     (fst (trial_step W B cfg i tr) # fst (trials W B cfg rest [] (snd (trial_step W B cfg i tr))),
      snd (trials W B cfg rest [] (snd (trial_step W B cfg i tr))))"
  by (subst trials_Cons, subst trials_results) simp

lemma run_make_record: "run (make_record i s e r) = i + 1"
  by (cases r) (simp add: make_record_def)

lemma trials_runs: "map run (fst (trials W B cfg idx [] tr)) = map (\<lambda>i. i + 1) idx"
  by (induction idx arbitrary: tr) (simp_all add: trials_step trial_step_def Let_def run_make_record)

lemma trials_all:
  assumes "\<And>i h. P (fst (trial_step W B cfg i h))"
  shows "\<forall>t \<in> set (fst (trials W B cfg idx [] tr)). P t"
  by (induction idx arbitrary: tr) (simp_all add: trials_step assms)

lemma trial_step_queries:
  "length (filter is_query (snd (trial_step W B cfg i tr))) = Suc (length (filter is_query tr))"
proof -
  obtain ext where
    "snd (wait_for_video_end W B (VIDEO_SELECTOR cfg) (MAX_WAIT_SECONDS cfg) (tr @ [UtcNow])) =
       (tr @ [UtcNow]) @ QuerySelector (VIDEO_SELECTOR cfg) # ext" "filter is_query ext = []"
    using wait_for_video_end_trace by blast
  then show ?thesis by (simp add: trial_step_def Let_def)
qed

lemma trials_queries:
  "length (filter is_query (snd (trials W B cfg idx [] tr))) =
     length (filter is_query tr) + length idx"
  by (induction idx arbitrary: tr) (simp_all add: trials_step trial_step_queries)

lemma py_range_runs: "map (\<lambda>i. i + 1) (py_range n) = [1..n]"
  unfolding py_range_def
proof (rule nth_equalityI)
  show "length (map (\<lambda>i. i + 1) [0..n - 1]) = length [1..n]" by simp
next
  fix k assume "k < length (map (\<lambda>i. i + 1) [0..n - 1])"
  then have k: "int k \<le> n - 1" by simp
  then have "[0..n - 1] ! k = 0 + int k" and "[1..n] ! k = 1 + int k"
    by simp_all
  with k show "map (\<lambda>i. i + 1) [0..n - 1] ! k = [1..n] ! k" by simp
qed

lemma length_py_range: "length (py_range n) = nat n"
  by (simp add: py_range_def)

lemma main_completed:
  assumes "main W B cfg req = (Inr resp, tr)" and "status_code resp = 200"
  obtains n where "parse_runs B req = Inr n"
    and "content resp = Report (fst (trials W B cfg (py_range n) [] []))"
    and "tr = snd (trials W B cfg (py_range n) [] [])"
proof (cases "parse_runs B req")
  case (Inl e)
  with assms show ?thesis by (simp add: main_def)
next
  case (Inr n)
  with assms have "content resp = Report (fst (trials W B cfg (py_range n) [] []))
      \<and> tr = snd (trials W B cfg (py_range n) [] [])"
    by (auto simp: main_def split: option.splits if_splits prod.splits)
  with Inr that show ?thesis by blast
qed

lemma round_half_even_nonneg: "0 \<le> y \<Longrightarrow> 0 \<le> round_half_even y"
proof -
  assume "0 \<le> y"
  then have "0 \<le> \<lfloor>y\<rfloor>" by simp
  then show ?thesis by (simp add: round_half_even_def Let_def)
qed

lemma nonneg_round2: "nonneg x \<Longrightarrow> nonneg (py_round2 x)"
  by (cases x) (simp_all add: round_half_even_nonneg)

lemma trial_step_record:
  assumes "fst (wait_for_video_end W B (VIDEO_SELECTOR cfg) (MAX_WAIT_SECONDS cfg) (tr @ [UtcNow])) =
           (st, d, nt)"
  shows "status (fst (trial_step W B cfg i tr)) = st"
    and "note_text (fst (trial_step W B cfg i tr)) = nt"
    and "run (fst (trial_step W B cfg i tr)) = i + 1"
    and "duration_sec (fst (trial_step W B cfg i tr)) =
           (if py_truthy d then map_option py_round2 d else None)"
  using assms by (simp_all add: trial_step_def Let_def make_record_def)

lemma main_report:
  assumes "main W B cfg req = (Inr resp, tr)" and "content resp = Report rs"
  obtains n where "parse_runs B req = Inr n"
    and "rs = fst (trials W B cfg (py_range n) [] [])"
proof (cases "parse_runs B req")
  case (Inl e)
  with assms show ?thesis by (simp add: main_def)
next
  case (Inr n)
  with assms have "rs = fst (trials W B cfg (py_range n) [] [])"
    by (auto simp: main_def split: option.splits if_splits prod.splits)
  with Inr that show ?thesis by blast
qed

lemma nonneg_recorded:
  assumes "nonneg x" and "(if x = Fin 0 then None else Some (py_round2 x)) = Some y"
  shows "nonneg y"
  using assms nonneg_round2 [of x] by (auto split: if_splits)

lemma trial_step_record_of_run:
  "record_of_run W B (VIDEO_SELECTOR cfg) (fst (trial_step W B cfg i tr))
     (wait_for_video_end W B (VIDEO_SELECTOR cfg) (MAX_WAIT_SECONDS cfg) (tr @ [UtcNow]))"
proof -
  let ?m = "wait_for_video_end W B (VIDEO_SELECTOR cfg) (MAX_WAIT_SECONDS cfg) (tr @ [UtcNow])"
  let ?t = "fst (trial_step W B cfg i tr)"
  obtain st d nt where r: "fst ?m = (st, d, nt)" by (cases "fst ?m") auto
  then have m: "?m = ((st, d, nt), snd ?m)" by (metis prod.collapse)
  note rec = trial_step_record [OF r, of i]
  have s: "status ?t = fst (fst ?m)" using rec(1) r by simp
  have np: "duration_sec ?t = None" if "status ?t \<noteq> ''played''"
  proof -
    from that rec(1) have "fst (st, d, nt) \<noteq> ''played''" by simp
    from wait_for_video_end_not_played [OF m this] have "d = None" by simp
    with rec(4) show ?thesis by simp
  qed
  have p: "(\<exists>h0. snd ?m = h0 @ [Evaluate (PlayedJS (VIDEO_SELECTOR cfg))]) \<and>
         (\<exists>v. read_back W B (snd ?m) = Inr v \<and>
              duration_sec ?t =
                (case v of None \<Rightarrow> None
                 | Some x \<Rightarrow> if x = Fin 0 then None else Some (py_round2 x)) \<and>
              (\<forall>x y. v = Some x \<and> nonneg x \<and> duration_sec ?t = Some y \<longrightarrow> nonneg y))"
    if "status ?t = ''played''"
  proof -
    from that rec(1) have "fst (st, d, nt) = ''played''" by simp
    from wait_for_video_end_played_run [OF m this]
    have h: "\<exists>h0. snd ?m = h0 @ [Evaluate (PlayedJS (VIDEO_SELECTOR cfg))]"
      and rb: "read_back W B (snd ?m) = Inr d" by simp_all
    have ds: "duration_sec ?t =
        (case d of None \<Rightarrow> None | Some x \<Rightarrow> if x = Fin 0 then None else Some (py_round2 x))"
      using rec(4) by (cases d) simp_all
    have nn: "nonneg y" if "d = Some x" "nonneg x" "duration_sec ?t = Some y" for x y
      using that ds nonneg_recorded [of x y] by simp
    from h rb ds nn show ?thesis by blast
  qed
  from s np p show ?thesis unfolding record_of_run_def by blast
qed

lemma trials_record_of_run:
  "list_all2 (record_of_run W B (VIDEO_SELECTOR cfg))
     (fst (trials W B cfg idx [] tr)) (monitor_runs W B cfg idx tr)"
proof (induction idx arbitrary: tr)
  case Nil
  show ?case by simp
next
  case (Cons i rest)
  have s: "snd (trial_step W B cfg i tr) =
      snd (wait_for_video_end W B (VIDEO_SELECTOR cfg) (MAX_WAIT_SECONDS cfg) (tr @ [UtcNow])) @ [UtcNow]"
    by (simp add: trial_step_def Let_def)
  show ?case
    using Cons.IH [of "snd (trial_step W B cfg i tr)"] trial_step_record_of_run [of W B cfg i tr]
    by (simp add: trials_step Let_def s)
qed

section \<open>The sample pages evaluated\<close>

lemmas eval_defs = wait_for_video_end_def wait_body_def interact_def static_page_def video_def
  read_played_def max_wait_of_def no_video_note_def play_failed_note_def error_note_def
  make_record_def default_config_def sample_request_def ascii_builtins_def int_of_ascii_def
  parse_runs_def main_def py_range_def trials.simps Let_def

lemma main_crashing:
  "main crashing_page ascii_builtins default_config (sample_request ''2'') =
     (Inr \<lparr>status_code = 200,
           content = Report
             [\<lparr>run = 1, start_time = ''2024-01-01T00:00:00'', end_time = ''2024-01-01T00:00:00'',
               duration_sec = None, status = ''error'',
               note_text = ''Exception while waiting for video end: Target closed''\<rparr>,
              \<lparr>run = 2, start_time = ''2024-01-01T00:00:00'', end_time = ''2024-01-01T00:00:00'',
               duration_sec = None, status = ''error'',
               note_text = ''Exception while waiting for video end: Target closed''\<rparr>]\<rparr>,
      [UtcNow, QuerySelector ''video'', Evaluate (DurationJS ''video''), UtcNow,
       UtcNow, QuerySelector ''video'', Evaluate (DurationJS ''video''), UtcNow])"
  by (simp add: eval_defs crashing_page_def upto.simps)

lemma ended_video_run:
  "wait_for_video_end (ended_video d c) B ''video'' 600 tr =
     (case read_played (ended_video d c) B ''video'' (tr @ preamble ''video'' @ [Evaluate (EndedJS ''video'')]) of
        (Inl e, t) \<Rightarrow> ((''error'', None, error_note e), t)
      | (Inr r, t) \<Rightarrow> (r, t))"
  by (simp add: wait_for_video_end_def wait_body_def interact_def ended_video_def static_page_def
        video_def max_wait_of_def preamble_def poll_loop.simps)

lemma ended_video_played:
  assumes "js_truthy c" and "py_float B c = Inr x"
  shows "wait_for_video_end (ended_video d c) B ''video'' 600 tr =
         ((''played'', Some x, ''Video ended normally.''),
          tr @ preamble ''video'' @ [Evaluate (EndedJS ''video''), Evaluate (PlayedJS ''video'')])"
  using assms js_truthy_not_None [OF assms(1)]
  by (subst ended_video_run)
     (simp add: read_played_def interact_def ended_video_def static_page_def video_def Let_def)

lemma utcnow_ended_video: "utcnow (ended_video d c) h = ''2024-01-01T00:00:00''"
  by (simp add: ended_video_def static_page_def)

lemma trials_single:
  "fst (trials W B cfg [i] [] tr) =
     [make_record i (utcnow W (tr @ [UtcNow]))
        (utcnow W (snd (wait_for_video_end W B (VIDEO_SELECTOR cfg) (MAX_WAIT_SECONDS cfg) (tr @ [UtcNow])) @ [UtcNow]))
        (fst (wait_for_video_end W B (VIDEO_SELECTOR cfg) (MAX_WAIT_SECONDS cfg) (tr @ [UtcNow])))]"
  by (simp add: trials.simps Let_def)

lemma main_one_trial:
  "main (ended_video d c) ascii_builtins default_config (sample_request ''1'') =
     (Inr \<lparr>status_code = 200,
           content = Report (fst (trials (ended_video d c) ascii_builtins default_config [0] [] []))\<rparr>,
      snd (trials (ended_video d c) ascii_builtins default_config [0] [] []))"
  by (simp add: main_def parse_runs_def sample_request_def ascii_builtins_def int_of_ascii_def
        py_range_def ended_video_def static_page_def split: prod.splits)

lemma dom_ended_video:
  "dom (ended_video d c) h = Dom (Some (video d c (JBool True) (Returns (Thenable False))))"
  by (simp add: ended_video_def static_page_def)


lemma ended_video_first_poll: "first_poll_seen_ended (ended_video d c) ''video'' h"
  by (simp add: first_poll_seen_ended_def play_accepted_def dom_ended_video video_def)

lemma crash_page_first_poll: "first_poll_seen_ended readback_crash_page ''video'' h"
  by (simp add: first_poll_seen_ended_def play_accepted_def readback_crash_page_def video_def
        preamble_def)

lemma ended_video_at_poll:
  "play_accepted (ended_video d c) ''video'' [] \<and>
   never_ended (ended_video d c) ''video'' ([] @ preamble ''video'') 0 \<and>
   int 0 < (if 0 < (600::int) then 600 else 600) \<and>
   dom (ended_video d c) (poll_history ''video'' [] 0) =
     Dom (Some (video d c (JBool True) (Returns (Thenable False)))) \<and>
   ended_js (Some (video d c (JBool True) (Returns (Thenable False))))"
  by (simp add: play_accepted_def never_ended_def dom_ended_video video_def)

lemma crash_page_at_poll:
  "play_accepted readback_crash_page ''video'' [] \<and>
   never_ended readback_crash_page ''video'' ([] @ preamble ''video'') 0 \<and>
   dom readback_crash_page (poll_history ''video'' [] 0) =
     Dom (Some (video (JNum (Fin 30)) (JNum (Fin 30)) (JBool True) (Returns (Thenable False)))) \<and>
   ended_js (Some (video (JNum (Fin 30)) (JNum (Fin 30)) (JBool True) (Returns (Thenable False))))"
  by (simp add: play_accepted_def never_ended_def readback_crash_page_def video_def preamble_def
        poll_history_def)

lemma ended_video_result:
  "fst (wait_for_video_end (ended_video d c) B ''video'' 600 []) =
     (case read_back (ended_video d c) B [] of
        Inl e \<Rightarrow> (''error'', None, ''Exception while waiting for video end: '' @ e)
      | Inr x \<Rightarrow> (''played'', x, ''Video ended normally.''))"
proof -
  let ?W = "ended_video d c"
  let ?e = "video d c (JBool True) (Returns (Thenable False))"
  have rb: "read_back ?W B (poll_history ''video'' [] 0 @ [Evaluate (PlayedJS ''video'')]) =
      read_back ?W B []"
    by (simp add: read_back_def dom_ended_video)
  have acc: "play_accepted ?W ''video'' []"
    and ne: "never_ended ?W ''video'' ([] @ preamble ''video'') 0"
    and k: "int 0 < (if 0 < (600::int) then 600 else 600)"
    and en: "dom ?W (poll_history ''video'' [] 0) = Dom (Some ?e)"
    and ej: "ended_js (Some ?e)"
    using ended_video_at_poll [of d c] by simp_all
  from wait_for_video_end_at_poll [OF acc ne k en ej, of B]
  show ?thesis unfolding rb by simp
qed

lemma crash_page_result:
  "fst (wait_for_video_end readback_crash_page B ''video'' 600 []) =
     (''error'', None, ''Exception while waiting for video end: Execution context was destroyed'')"
proof -
  let ?W = "readback_crash_page"
  let ?e = "video (JNum (Fin 30)) (JNum (Fin 30)) (JBool True) (Returns (Thenable False))"
  have rb: "read_back ?W B (poll_history ''video'' [] 0 @ [Evaluate (PlayedJS ''video'')]) =
      Inl ''Execution context was destroyed''"
    by (simp add: read_back_def readback_crash_page_def)
  have acc: "play_accepted ?W ''video'' []"
    and ne: "never_ended ?W ''video'' ([] @ preamble ''video'') 0"
    and en: "dom ?W (poll_history ''video'' [] 0) = Dom (Some ?e)"
    and ej: "ended_js (Some ?e)"
    using crash_page_at_poll by simp_all
  have k: "int 0 < (if 0 < (600::int) then 600 else 600)" by simp
  from wait_for_video_end_at_poll [OF acc ne k en ej, of B]
  show ?thesis unfolding rb by simp
qed

lemma py_float_abc:
  "float_str ascii_builtins ''abc'' =
     Inl (''could not convert string to float: '' @ [CHR 0x27] @ ''abc'' @ [CHR 0x27])"
  by (simp add: ascii_builtins_def int_of_ascii_def)

lemma trials_ended_video:
  assumes "js_truthy c" and "py_float B c = Inr x"
  shows "fst (trials (ended_video d c) B default_config [0] [] []) =
        [\<lparr>run = 1, start_time = ''2024-01-01T00:00:00'', end_time = ''2024-01-01T00:00:00'',
          duration_sec = (if x = Fin 0 then None else Some (py_round2 x)), status = ''played'',
          note_text = ''Video ended normally.''\<rparr>]"
  unfolding trials_single
  by (simp add: default_config_def ended_video_played [OF assms] make_record_def
        utcnow_ended_video)

section \<open>The claims\<close>

text \<open>
  C1. Let the runs parameter parse to \<open>N \<ge> 1\<close> and let the run complete (\<^verbatim>\<open>main\<close> answers
  with status 200). Then the report has exactly \<open>N\<close> records, their run indices are
  1, ..., \<open>N\<close> in this order, and the history of the run holds exactly \<open>N\<close> existence
  queries: the Monitor, which issues one such query per call, was called once per trial,
  whatever page answered and whatever outcome the earlier trials had.
\<close>

theorem report_has_N_records:
  assumes "parse_runs B req = Inr N" and "1 \<le> N"
    and "main W B cfg req = (Inr resp, tr)" and "status_code resp = 200"
  shows "\<exists>rs. content resp = Report rs \<and> length rs = nat N \<and> map run rs = [1..N] \<and>
              length (filter is_query tr) = nat N"
proof -
  from assms(3,4) obtain n where n: "parse_runs B req = Inr n"
    and c: "content resp = Report (fst (trials W B cfg (py_range n) [] []))"
    and t: "tr = snd (trials W B cfg (py_range n) [] [])"
    by (rule main_completed)
  from n assms(1) have nN: "n = N" by simp
  let ?rs = "fst (trials W B cfg (py_range N) [] [])"
  have m: "map run ?rs = [1..N]" by (simp add: trials_runs py_range_runs)
  have "length ?rs = length (map run ?rs)" by simp
  also have "\<dots> = nat N" unfolding m by simp
  finally have l: "length ?rs = nat N" .
  have q: "length (filter is_query tr) = nat N"
    unfolding t nN by (simp add: trials_queries length_py_range)
  from c m l q show ?thesis unfolding nN by blast
qed

text \<open>Two trials on a page where each ends in \<open>error\<close>: both are recorded, as runs 1
  and 2, and the Monitor was called twice.\<close>

theorem report_has_N_records_witness:
  "\<exists>rs. content (projr (fst (main crashing_page ascii_builtins default_config
                                 (sample_request ''2'')))) = Report rs \<and>
        length rs = 2 \<and> map run rs = [1, 2] \<and> map status rs = [''error'', ''error''] \<and>
        length (filter is_query (snd (main crashing_page ascii_builtins default_config
                                          (sample_request ''2'')))) = 2"
proof -
  have p: "parse_runs ascii_builtins (sample_request ''2'') = Inr 2"
    by (simp add: eval_defs)
  have le: "(1::int) \<le> 2" by simp
  from report_has_N_records [OF p le main_crashing]
  show ?thesis by (simp add: main_crashing upto.simps)
qed

text \<open>
  C2. The Monitor is a total function of the page's behaviour. Its outcome is one of the
  five strings, and whenever a call on the page raised during the run (the history \<open>h\<close>
  ends with that call and the page answers it by \<open>Raises e\<close>), that call was the last
  action of the run and the result is \<open>error\<close> with no duration and the note
  "Exception while waiting for video end: " followed by the text of the exception.
\<close>

theorem monitor_never_raises:
  assumes "wait_for_video_end W B selector m tr = (r, tr')"
  shows "fst r \<in> {''no_video'', ''play_failed'', ''played'', ''timeout'', ''error''} \<and>
         (\<forall>h e. strict_prefix tr h \<and> prefix h tr' \<and> is_page_call (last h) \<and> dom W h = Raises e \<longrightarrow>
            h = tr' \<and> r = (''error'', None, ''Exception while waiting for video end: '' @ e))"
proof -
  from assms obtain res where body: "wait_body W B selector m tr = (res, tr')"
    and r: "r = (case res of Inl e \<Rightarrow> (''error'', None, error_note e) | Inr x \<Rightarrow> x)"
    by (rule wait_for_video_end_body)
  have enum: "fst r \<in> {''no_video'', ''play_failed'', ''played'', ''timeout'', ''error''}"
  proof (cases res)
    case (Inl e)
    with r show ?thesis by simp
  next
    case (Inr x)
    with body r wait_body_status [of W B selector m tr x tr'] show ?thesis by auto
  qed
  have "h = tr' \<and> r = (''error'', None, ''Exception while waiting for video end: '' @ e)"
    if "strict_prefix tr h" "prefix h tr'" "is_page_call (last h)" "dom W h = Raises e" for h e
    using wait_body_raise [OF body that] r by (simp add: error_note_def)
  with enum show ?thesis by blast
qed

text \<open>On a page whose duration script fails with "Target closed" the outcome is \<open>error\<close>.\<close>

theorem monitor_never_raises_witness:
  "fst (fst (wait_for_video_end crashing_page ascii_builtins ''video'' 600 []))
      \<in> {''no_video'', ''play_failed'', ''played'', ''timeout'', ''error''} \<and>
   fst (wait_for_video_end crashing_page ascii_builtins ''video'' 600 []) =
     (''error'', None, ''Exception while waiting for video end: Target closed'')"
proof -
  let ?X = "wait_for_video_end crashing_page ascii_builtins ''video'' 600 []"
  let ?h = "[QuerySelector ''video'', Evaluate (DurationJS ''video'')]"
  have t: "snd ?X = ?h"
    by (simp add: wait_for_video_end_def wait_body_def interact_def crashing_page_def)
  have pre: "strict_prefix [] ?h \<and> prefix ?h (snd ?X) \<and> is_page_call (last ?h) \<and>
      dom crashing_page ?h = Raises ''Target closed''"
    unfolding t by (simp add: crashing_page_def)
  note th = monitor_never_raises [of crashing_page ascii_builtins "''video''" 600 "[]" "fst ?X" "snd ?X"]
  have "?X = (fst ?X, snd ?X)" by simp
  note c = th [OF this]
  note enum = c [THEN conjunct1]
  note err = c [THEN conjunct2, rule_format, of ?h "''Target closed''", OF pre, THEN conjunct2]
  from enum err show ?thesis by simp
qed

text \<open>
  C3, as the code has it. Every record of a report stands against the Monitor's return of
  its own trial (\<open>monitor_runs\<close> lists the returns in order, each with the history at the
  return). An outcome other than \<open>played\<close> has no duration. With the outcome \<open>played\<close>
  the run ended with the read-back call of this trial, and the duration is null when that
  read-back gave null or a float equal to zero, and otherwise the rounding to two
  decimals of the float it gave: it is not negative whenever that float is not negative.
  The code itself never checks the sign.
\<close>

theorem duration_null_unless_played:
  assumes "main W B cfg req = (Inr resp, tr)" and "content resp = Report rs"
  shows "\<exists>n. parse_runs B req = Inr n \<and>
             list_all2 (record_of_run W B (VIDEO_SELECTOR cfg)) rs
               (monitor_runs W B cfg (py_range n) [])"
proof -
  from assms obtain n where n: "parse_runs B req = Inr n"
    and rs: "rs = fst (trials W B cfg (py_range n) [] [])"
    by (rule main_report)
  from n trials_record_of_run [of W B cfg "py_range n" "[]"] show ?thesis
    unfolding rs by blast
qed

text \<open>A video that has ended at position 12.3 is recorded with that duration.\<close>

theorem duration_null_unless_played_witness:
  "content (projr (fst (main (ended_video (JNum (Fin 30)) (JNum (Fin (123 / 10)))) ascii_builtins
                          default_config (sample_request ''1'')))) =
     Report (fst (trials (ended_video (JNum (Fin 30)) (JNum (Fin (123 / 10)))) ascii_builtins
                    default_config [0] [] [])) \<and>
   list_all2 (record_of_run (ended_video (JNum (Fin 30)) (JNum (Fin (123 / 10)))) ascii_builtins ''video'')
     (fst (trials (ended_video (JNum (Fin 30)) (JNum (Fin (123 / 10)))) ascii_builtins
             default_config [0] [] []))
     (monitor_runs (ended_video (JNum (Fin 30)) (JNum (Fin (123 / 10)))) ascii_builtins
        default_config [0] []) \<and>
   map status (fst (trials (ended_video (JNum (Fin 30)) (JNum (Fin (123 / 10)))) ascii_builtins
                      default_config [0] [] [])) = [''played''] \<and>
   map duration_sec (fst (trials (ended_video (JNum (Fin 30)) (JNum (Fin (123 / 10)))) ascii_builtins
                      default_config [0] [] [])) = [Some (Fin (123 / 10))]"
proof -
  let ?W = "ended_video (JNum (Fin 30)) (JNum (Fin (123 / 10)))"
  let ?rs = "fst (trials ?W ascii_builtins default_config [0] [] [])"
  have f: "py_float ascii_builtins (JNum (Fin (123 / 10))) = Inr (Fin (123 / 10))" by simp
  have t: "js_truthy (JNum (Fin (123 / 10)))" by simp
  have c: "content \<lparr>status_code = 200, content = Report ?rs\<rparr> = Report ?rs" by simp
  have p: "parse_runs ascii_builtins (sample_request ''1'') = Inr 1"
    by (simp add: parse_runs_def sample_request_def ascii_builtins_def int_of_ascii_def)
  from duration_null_unless_played [OF main_one_trial c] p
  have l: "list_all2 (record_of_run ?W ascii_builtins ''video'') ?rs
             (monitor_runs ?W ascii_builtins default_config [0] [])"
    by (simp add: py_range_def default_config_def)
  have m: "content (projr (fst (main ?W ascii_builtins default_config (sample_request ''1'')))) =
      Report ?rs"
    unfolding main_one_trial by simp
  have s: "map status ?rs = [''played'']" "map duration_sec ?rs = [Some (Fin (123 / 10))]"
    unfolding trials_ended_video [OF t f] by (simp_all add: round_half_even_def)
  from m l s show ?thesis by simp
qed

text \<open>A page that reports the position -1 for its ended video: the record has the outcome
  \<open>played\<close> and the duration -1. A page that reports the string "nan": the record has
  the outcome \<open>played\<close> and the duration NaN.\<close>

theorem negative_duration_counterexample:
  "(\<exists>t. content (projr (fst (main (ended_video (JNum (Fin 10)) (JNum (Fin (- 1)))) ascii_builtins
                                default_config (sample_request ''1'')))) = Report [t] \<and>
       status t = ''played'' \<and> duration_sec t = Some (Fin (- 1))) \<and>
   (\<exists>t. fst (trials (ended_video (JNum (Fin 10)) (JStr ''nan'')) nan_builtins default_config [0] [] [])
          = [t] \<and>
       status t = ''played'' \<and> duration_sec t = Some NaN)"
proof -
  have f: "py_float ascii_builtins (JNum (Fin (- 1))) = Inr (Fin (- 1))" by simp
  have t: "js_truthy (JNum (Fin (- 1)))" by simp
  have a: "\<exists>t. content (projr (fst (main (ended_video (JNum (Fin 10)) (JNum (Fin (- 1)))) ascii_builtins
                                default_config (sample_request ''1'')))) = Report [t] \<and>
       status t = ''played'' \<and> duration_sec t = Some (Fin (- 1))"
    unfolding main_one_trial trials_ended_video [OF t f] by (simp add: round_half_even_def)
  have f': "py_float nan_builtins (JStr ''nan'') = Inr NaN" by (simp add: nan_builtins_def)
  have t': "js_truthy (JStr ''nan'')" by simp
  have b: "\<exists>t. fst (trials (ended_video (JNum (Fin 10)) (JStr ''nan'')) nan_builtins default_config [0] [] [])
          = [t] \<and> status t = ''played'' \<and> duration_sec t = Some NaN"
    unfolding trials_ended_video [OF t' f'] by simp
  from a b show ?thesis by simp
qed

text \<open>
  C4, as the code has it. At any point of the trial loop (records so far \<open>results\<close>,
  history \<open>tr\<close>, next index \<open>i\<close>): if the Monitor returns a duration \<open>d\<close> that is
  not zero, the record appended for this trial holds \<open>d\<close> rounded to two decimals, with
  the run index \<open>i + 1\<close> and the Monitor's outcome and note unchanged.
\<close>

theorem nonzero_duration_is_rounded:
  assumes "fst (wait_for_video_end W B (VIDEO_SELECTOR cfg) (MAX_WAIT_SECONDS cfg) (tr @ [UtcNow])) =
           (st, Some d, nt)"
    and "d \<noteq> Fin 0"
  shows "duration_sec (fst (trials W B cfg (i # rest) results tr) ! length results) =
           Some (py_round2 d)
         \<and> status (fst (trials W B cfg (i # rest) results tr) ! length results) = st
         \<and> note_text (fst (trials W B cfg (i # rest) results tr) ! length results) = nt
         \<and> run (fst (trials W B cfg (i # rest) results tr) ! length results) = i + 1"
proof -
  have "fst (trials W B cfg (i # rest) results tr) ! length results =
        fst (trial_step W B cfg i tr)"
    by (subst trials_results) (simp add: trials_step)
  with trial_step_record [OF assms(1), of i] assms(2) show ?thesis by simp
qed

text \<open>The position 0.125 is recorded as 0.12.\<close>

theorem nonzero_duration_is_rounded_witness:
  "fst (wait_for_video_end (ended_video (JNum (Fin 30)) (JNum (Fin (1 / 8)))) ascii_builtins
          (VIDEO_SELECTOR default_config) (MAX_WAIT_SECONDS default_config) ([] @ [UtcNow])) =
     (''played'', Some (Fin (1 / 8)), ''Video ended normally.'') \<and>
   Fin (1 / 8) \<noteq> Fin 0 \<and>
   duration_sec (fst (trials (ended_video (JNum (Fin 30)) (JNum (Fin (1 / 8)))) ascii_builtins
                        default_config [0] [] []) ! 0) = Some (Fin (3 / 25))"
proof -
  let ?W = "ended_video (JNum (Fin 30)) (JNum (Fin (1 / 8)))"
  have f: "py_float ascii_builtins (JNum (Fin (1 / 8))) = Inr (Fin (1 / 8))" by simp
  have t: "js_truthy (JNum (Fin (1 / 8)))" by simp
  have m: "fst (wait_for_video_end ?W ascii_builtins
          (VIDEO_SELECTOR default_config) (MAX_WAIT_SECONDS default_config) ([] @ [UtcNow])) =
     (''played'', Some (Fin (1 / 8)), ''Video ended normally.'')"
    by (simp add: default_config_def ended_video_played [OF t f])
  have nz: "Fin (1 / 8) \<noteq> Fin 0" by simp
  have fl: "\<lfloor>25 / 2 :: rat\<rfloor> = 12" by (rule floor_unique) simp_all
  have r: "py_round2 (Fin (1 / 8)) = Fin (3 / 25)"
    by (simp add: round_half_even_def Let_def fl)
  from nonzero_duration_is_rounded [OF m nz, of 0 "[]" "[]"] m nz r
  show ?thesis by simp
qed

text \<open>A page whose ended element holds the string "0" as its position: the Monitor returns
  the duration 0.0, and the record holds null.\<close>

theorem zero_duration_counterexample:
  "fst (wait_for_video_end (ended_video (JNum (Fin 10)) (JStr ''0'')) ascii_builtins ''video'' 600 [UtcNow]) =
     (''played'', Some (Fin 0), ''Video ended normally.'') \<and>
   map duration_sec (fst (trials (ended_video (JNum (Fin 10)) (JStr ''0'')) ascii_builtins
                            default_config [0] [] [])) = [None]"
proof -
  have f: "py_float ascii_builtins (JStr ''0'') = Inr (Fin 0)"
    by (simp add: ascii_builtins_def int_of_ascii_def)
  have t: "js_truthy (JStr ''0'')" by simp
  show ?thesis unfolding trials_single
    by (simp add: default_config_def ended_video_played [OF t f] make_record_def)
qed

text \<open>
  C5. Whatever the wait bound \<open>m\<close>, with 600 in its place when it is not positive: if the
  element is found, the play script returns true and none of the polls sees the end, the
  Monitor polls exactly that many times, sleeping one second after each poll, and returns
  \<open>timeout\<close> with no duration and a note that spells the coerced bound.
\<close>

theorem timeout_after_max_wait:
  assumes "play_accepted W selector tr"
    and "never_ended W selector (tr @ preamble selector) (nat (if 0 < m then m else 600))"
  shows "wait_for_video_end W B selector m tr =
         ((''timeout'', None,
           ''Timed out after '' @ str_int (if 0 < m then m else 600)
              @ '' seconds waiting for video to end.''),
          tr @ preamble selector
             @ concat (replicate (nat (if 0 < m then m else 600)) (poll_round selector)))"
proof -
  let ?M = "max_wait_of m"
  have M: "?M = (if 0 < m then m else 600)" by (simp add: max_wait_of_def)
  have le: "0 + int (nat ?M) \<le> ?M" using max_wait_of_pos [of m] by simp
  have ne: "never_ended W selector (tr @ preamble selector) (nat ?M)"
    using assms(2) unfolding M .
  have "poll_loop W B selector ?M 0 (tr @ preamble selector) =
        poll_loop W B selector ?M (0 + int (nat ?M))
          ((tr @ preamble selector) @ concat (replicate (nat ?M) (poll_round selector)))"
    using poll_loop_skip [OF ne [unfolded never_ended_def] le] .
  also have "\<dots> = (Inr (''timeout'', None, timeout_note ?M),
          (tr @ preamble selector) @ concat (replicate (nat ?M) (poll_round selector)))"
    by (rule poll_loop_timeout) (use max_wait_of_pos [of m] in simp)
  finally have "wait_for_video_end W B selector m tr =
       ((''timeout'', None, timeout_note ?M),
        tr @ preamble selector @ concat (replicate (nat ?M) (poll_round selector)))"
    by (simp add: wait_for_video_end_def wait_body_started [OF assms(1)])
  then show ?thesis unfolding M by (simp add: timeout_note_def)
qed

text \<open>On a page whose video never ends: the bound 5 gives five polls and the note "5", the
  bounds 0 and -7 give 600 polls and the note "600".\<close>

theorem timeout_after_max_wait_witness:
  "wait_for_video_end stalled_page ascii_builtins ''video'' 5 [] =
     ((''timeout'', None, ''Timed out after 5 seconds waiting for video to end.''),
      [QuerySelector ''video'', Evaluate (DurationJS ''video''), Evaluate (PlayJS ''video''),
       Evaluate (EndedJS ''video''), Sleep 1, Evaluate (EndedJS ''video''), Sleep 1,
       Evaluate (EndedJS ''video''), Sleep 1, Evaluate (EndedJS ''video''), Sleep 1,
       Evaluate (EndedJS ''video''), Sleep 1]) \<and>
   wait_for_video_end stalled_page ascii_builtins ''video'' 0 [] =
     ((''timeout'', None, ''Timed out after 600 seconds waiting for video to end.''),
      preamble ''video'' @ concat (replicate 600 (poll_round ''video''))) \<and>
   wait_for_video_end stalled_page ascii_builtins ''video'' (- 7) [] =
     ((''timeout'', None, ''Timed out after 600 seconds waiting for video to end.''),
      preamble ''video'' @ concat (replicate 600 (poll_round ''video'')))"
proof -
  have acc: "play_accepted stalled_page ''video'' []"
    by (simp add: stalled_page_def static_page_def video_def play_accepted_def preamble_def)
  have ne: "never_ended stalled_page ''video'' ([] @ preamble ''video'') n" for n
    by (simp add: stalled_page_def static_page_def video_def never_ended_def)
  have s5: "str_int 5 = ''5''" and s600: "str_int 600 = ''600''"
    by (simp_all add: str_int_def)
  from timeout_after_max_wait [OF acc ne, where m = 5 and B = ascii_builtins]
  have a: "wait_for_video_end stalled_page ascii_builtins ''video'' 5 [] =
     ((''timeout'', None, ''Timed out after 5 seconds waiting for video to end.''),
      [QuerySelector ''video'', Evaluate (DurationJS ''video''), Evaluate (PlayJS ''video''),
       Evaluate (EndedJS ''video''), Sleep 1, Evaluate (EndedJS ''video''), Sleep 1,
       Evaluate (EndedJS ''video''), Sleep 1, Evaluate (EndedJS ''video''), Sleep 1,
       Evaluate (EndedJS ''video''), Sleep 1])"
    by (simp add: s5 preamble_def poll_round_def eval_nat_numeral)
  from timeout_after_max_wait [OF acc ne, where m = 0 and B = ascii_builtins]
  have b: "wait_for_video_end stalled_page ascii_builtins ''video'' 0 [] =
     ((''timeout'', None, ''Timed out after 600 seconds waiting for video to end.''),
      preamble ''video'' @ concat (replicate 600 (poll_round ''video'')))"
    by (simp add: s600)
  from timeout_after_max_wait [OF acc ne, where m = "- 7" and B = ascii_builtins]
  have c: "wait_for_video_end stalled_page ascii_builtins ''video'' (- 7) [] =
     ((''timeout'', None, ''Timed out after 600 seconds waiting for video to end.''),
      preamble ''video'' @ concat (replicate 600 (poll_round ''video'')))"
    by (simp add: s600)
  from a b c show ?thesis by simp
qed




text \<open>
  C7. If the existence query matches nothing, the Monitor returns \<open>no_video\<close> with no
  duration and the note "No element matching selector '...' found." naming the selector;
  the query is the only action of the run: no script is evaluated, so there is no play
  call and no poll, and there is no sleep.
\<close>

theorem no_video_immediately:
  assumes "dom W (tr @ [QuerySelector selector]) = Dom None"
  shows "wait_for_video_end W B selector m tr =
         ((''no_video'', None,
           ''No element matching selector '' @ [CHR 0x27] @ selector @ [CHR 0x27] @ '' found.''),
          tr @ [QuerySelector selector])"
  using assms
  by (simp add: wait_for_video_end_def wait_body_def interact_def no_video_note_def)

text \<open>The selector "video" on a page without a match.\<close>

theorem no_video_immediately_witness:
  "wait_for_video_end (static_page (Dom None)) ascii_builtins ''video'' 600 [] =
     ((''no_video'', None,
       ''No element matching selector '' @ [CHR 0x27] @ ''video'' @ [CHR 0x27] @ '' found.''),
      [QuerySelector ''video''])"
  using no_video_immediately [of "static_page (Dom None)" "[]" "''video''" ascii_builtins 600]
  by (simp add: static_page_def)

text \<open>
  C8. If the element is found, the duration script does not raise and the play script finds
  an element whose \<^verbatim>\<open>play()\<close> throws, the Monitor returns \<open>play_failed\<close> with no
  duration and the note on autoplay, and the run consists of the query and the two
  scripts: no poll, no sleep. Hence on a page where every call finds an element whose
  \<^verbatim>\<open>play()\<close> throws, every record of the trial loop has the outcome \<open>play_failed\<close>.
\<close>

theorem play_failed_when_play_throws:
  "(dom W (tr @ [QuerySelector selector]) = Dom (Some x) \<and>
    dom W (tr @ [QuerySelector selector, Evaluate (DurationJS selector)]) = Dom d \<and>
    dom W (tr @ preamble selector) = Dom (Some v) \<and> play v = Throws \<longrightarrow>
    wait_for_video_end W B selector m tr =
      ((''play_failed'', None,
        ''video element exists but play() could not start (autoplay blocked?).''),
       tr @ preamble selector))
   \<and> ((\<forall>h. \<exists>v. dom W h = Dom (Some v) \<and> play v = Throws) \<longrightarrow>
       (\<forall>t \<in> set (fst (trials W B cfg idx [] tr0)). status t = ''play_failed''))"
proof (intro conjI impI)
  assume "dom W (tr @ [QuerySelector selector]) = Dom (Some x) \<and>
    dom W (tr @ [QuerySelector selector, Evaluate (DurationJS selector)]) = Dom d \<and>
    dom W (tr @ preamble selector) = Dom (Some v) \<and> play v = Throws"
  then show "wait_for_video_end W B selector m tr =
      ((''play_failed'', None,
        ''video element exists but play() could not start (autoplay blocked?).''),
       tr @ preamble selector)"
    by (simp add: wait_for_video_end_def wait_body_def interact_def preamble_def play_failed_note_def)
next
  assume all: "\<forall>h. \<exists>v. dom W h = Dom (Some v) \<and> play v = Throws"
  have "status (fst (trial_step W B cfg i h)) = ''play_failed''" for i h
  proof -
    let ?s = "VIDEO_SELECTOR cfg" and ?t = "h @ [UtcNow]"
    from all obtain x where x: "dom W (?t @ [QuerySelector ?s]) = Dom (Some x)" by blast
    from all obtain d where d: "dom W (?t @ [QuerySelector ?s, Evaluate (DurationJS ?s)]) = Dom d"
      by blast
    from all obtain v where v: "dom W (?t @ preamble ?s) = Dom (Some v)" "play v = Throws" by blast
    from x d v have "fst (wait_for_video_end W B ?s (MAX_WAIT_SECONDS cfg) ?t) =
        (''play_failed'', None, play_failed_note)"
      by (simp add: wait_for_video_end_def wait_body_def interact_def preamble_def)
    then show ?thesis by (simp add: trial_step_def Let_def make_record_def)
  qed
  then show "\<forall>t \<in> set (fst (trials W B cfg idx [] tr0)). status t = ''play_failed''"
    by (rule trials_all)
qed

text \<open>Three trials on such a page.\<close>

theorem play_failed_when_play_throws_witness:
  "wait_for_video_end
     (static_page (Dom (Some (video (JNum (Fin 30)) (JNum (Fin 0)) (JBool False) Throws))))
     ascii_builtins ''video'' 600 [] =
     ((''play_failed'', None,
       ''video element exists but play() could not start (autoplay blocked?).''),
      [QuerySelector ''video'', Evaluate (DurationJS ''video''), Evaluate (PlayJS ''video'')]) \<and>
   list_all (\<lambda>t. status t = ''play_failed'')
     (fst (trials (static_page (Dom (Some (video (JNum (Fin 30)) (JNum (Fin 0)) (JBool False) Throws))))
             ascii_builtins default_config [0, 1, 2] [] [])) \<and>
   length (fst (trials (static_page (Dom (Some (video (JNum (Fin 30)) (JNum (Fin 0)) (JBool False) Throws))))
             ascii_builtins default_config [0, 1, 2] [] [])) = 3"
proof -
  let ?e = "video (JNum (Fin 30)) (JNum (Fin 0)) (JBool False) Throws"
  let ?W = "static_page (Dom (Some ?e))"
  let ?rs = "fst (trials ?W ascii_builtins default_config [0, 1, 2] [] [])"
  note th = play_failed_when_play_throws [where W = ?W and tr = "[]" and selector = "''video''"
      and x = ?e and d = "Some ?e" and v = ?e and B = ascii_builtins and m = 600
      and cfg = default_config and idx = "[0, 1, 2]" and ?tr0.0 = "[]"]
  have a: "dom ?W ([] @ [QuerySelector ''video'']) = Dom (Some ?e) \<and>
    dom ?W ([] @ [QuerySelector ''video'', Evaluate (DurationJS ''video'')]) = Dom (Some ?e) \<and>
    dom ?W ([] @ preamble ''video'') = Dom (Some ?e) \<and> play ?e = Throws"
    by (simp add: static_page_def video_def)
  have b: "\<forall>h. \<exists>v. dom ?W h = Dom (Some v) \<and> play v = Throws"
    by (simp add: static_page_def video_def)
  from th [THEN conjunct1, THEN mp, OF a]
  have one: "wait_for_video_end ?W ascii_builtins ''video'' 600 [] =
     ((''play_failed'', None,
       ''video element exists but play() could not start (autoplay blocked?).''),
      [QuerySelector ''video'', Evaluate (DurationJS ''video''), Evaluate (PlayJS ''video'')])"
    by (simp add: preamble_def)
  from th [THEN conjunct2, THEN mp, OF b]
  have all: "list_all (\<lambda>t. status t = ''play_failed'') ?rs"
    by (simp add: list_all_iff)
  have "length ?rs = length (map run ?rs)" by simp
  also have "\<dots> = 3" unfolding trials_runs by simp
  finally have "length ?rs = 3" .
  with one all show ?thesis by simp
qed

text \<open>
  C9, as the code has it. If the element is found, play is accepted and the first poll sees
  \<open>ended\<close>, then, whatever the wait bound \<open>m\<close>, the run is the five calls of
  \<open>first_poll_run\<close>: one poll, no sleep. Its outcome is \<open>played\<close> when the read-back
  neither raises nor gives a value \<^verbatim>\<open>float\<close> rejects, and \<open>error\<close> otherwise. If the page
  is in the same state after such a run and the read-back succeeds again, running the
  Monitor again from there, with any bound \<open>m'\<close>, returns \<open>played\<close> in the same way.
\<close>

theorem played_on_first_poll:
  assumes "first_poll_seen_ended W selector tr"
  shows "snd (wait_for_video_end W B selector m tr) = tr @ first_poll_run selector \<and>
         (\<forall>d. read_back W B (tr @ first_poll_run selector) = Inr d \<longrightarrow>
            fst (wait_for_video_end W B selector m tr) = (''played'', d, ''Video ended normally.'')) \<and>
         (\<forall>e. read_back W B (tr @ first_poll_run selector) = Inl e \<longrightarrow>
            fst (wait_for_video_end W B selector m tr) =
              (''error'', None, ''Exception while waiting for video end: '' @ e)) \<and>
         (\<forall>d d'. first_poll_seen_ended W selector (tr @ first_poll_run selector)
              \<and> read_back W B (tr @ first_poll_run selector) = Inr d
              \<and> read_back W B (tr @ first_poll_run selector @ first_poll_run selector) = Inr d' \<longrightarrow>
            wait_for_video_end W B selector m' (snd (wait_for_video_end W B selector m tr)) =
              ((''played'', d', ''Video ended normally.''),
               tr @ first_poll_run selector @ first_poll_run selector))"
proof -
  have one: "wait_for_video_end W B selector n h =
         (case read_back W B (h @ first_poll_run selector) of
            Inl e \<Rightarrow> (''error'', None, ''Exception while waiting for video end: '' @ e)
          | Inr d \<Rightarrow> (''played'', d, ''Video ended normally.''),
          h @ first_poll_run selector)"
    if "first_poll_seen_ended W selector h" for h n
  proof -
    from that obtain e where acc: "play_accepted W selector h"
      and e: "dom W (h @ preamble selector @ [Evaluate (EndedJS selector)]) = Dom (Some e)"
         "js_truthy (ended e)"
      unfolding first_poll_seen_ended_def by blast
    have ne: "never_ended W selector (h @ preamble selector) 0" by (simp add: never_ended_def)
    have k: "int 0 < (if 0 < n then n else 600)" by simp
    have en1: "dom W (poll_history selector h 0) = Dom (Some e)"
      using e(1) by (simp add: poll_history_def)
    have en2: "ended_js (Some e)" using e(2) by simp
    from wait_for_video_end_at_poll [OF acc ne k en1 en2, of B]
    show ?thesis by (simp add: first_poll_run_def poll_history_def)
  qed
  note first = one [OF assms, of m]
  have a: "snd (wait_for_video_end W B selector m tr) = tr @ first_poll_run selector"
    unfolding first by simp
  have b: "fst (wait_for_video_end W B selector m tr) = (''played'', d, ''Video ended normally.'')"
    if "read_back W B (tr @ first_poll_run selector) = Inr d" for d
    unfolding first using that by simp
  have c: "fst (wait_for_video_end W B selector m tr) =
              (''error'', None, ''Exception while waiting for video end: '' @ e)"
    if "read_back W B (tr @ first_poll_run selector) = Inl e" for e
    unfolding first using that by simp
  have d: "wait_for_video_end W B selector m' (snd (wait_for_video_end W B selector m tr)) =
              ((''played'', d', ''Video ended normally.''),
               tr @ first_poll_run selector @ first_poll_run selector)"
    if "first_poll_seen_ended W selector (tr @ first_poll_run selector)"
      "read_back W B (tr @ first_poll_run selector @ first_poll_run selector) = Inr d'" for d'
    unfolding a using one [OF that(1), of m'] that(2) by simp
  from a b c d show ?thesis by blast
qed

text \<open>Two runs, with bounds 600 and 5, on a page whose video has ended; one run on a page
  whose read-back call fails.\<close>

theorem played_on_first_poll_witness:
  "wait_for_video_end (ended_video (JNum (Fin 30)) (JNum (Fin 30))) ascii_builtins ''video'' 600 [] =
     ((''played'', Some (Fin 30), ''Video ended normally.''), first_poll_run ''video'') \<and>
   wait_for_video_end (ended_video (JNum (Fin 30)) (JNum (Fin 30))) ascii_builtins ''video'' 5
     (snd (wait_for_video_end (ended_video (JNum (Fin 30)) (JNum (Fin 30))) ascii_builtins
             ''video'' 600 [])) =
     ((''played'', Some (Fin 30), ''Video ended normally.''),
      first_poll_run ''video'' @ first_poll_run ''video'') \<and>
   wait_for_video_end readback_crash_page ascii_builtins ''video'' 600 [] =
     ((''error'', None, ''Exception while waiting for video end: Execution context was destroyed''),
      first_poll_run ''video'')"
proof -
  let ?W = "ended_video (JNum (Fin 30)) (JNum (Fin 30))"
  have rb: "read_back ?W ascii_builtins h = Inr (Some (Fin 30))" for h
    by (simp add: read_back_def dom_ended_video video_def)
  have rc: "read_back readback_crash_page ascii_builtins ([] @ first_poll_run ''video'') =
      Inl ''Execution context was destroyed''"
    by (simp add: read_back_def readback_crash_page_def first_poll_run_def)
  note th = played_on_first_poll [OF ended_video_first_poll, where tr = "[]" and m = 600
      and m' = 5 and B = ascii_builtins and d1 = "JNum (Fin 30)" and c1 = "JNum (Fin 30)"]
  note tc = played_on_first_poll [OF crash_page_first_poll, where tr = "[]" and m = 600
      and B = ascii_builtins]
  from th [THEN conjunct1] th [THEN conjunct2, THEN conjunct1, rule_format, OF rb]
  have a: "wait_for_video_end ?W ascii_builtins ''video'' 600 [] =
     ((''played'', Some (Fin 30), ''Video ended normally.''), first_poll_run ''video'')"
    by (simp add: prod_eq_iff)
  have pre: "first_poll_seen_ended ?W ''video'' ([] @ first_poll_run ''video'') \<and>
      read_back ?W ascii_builtins ([] @ first_poll_run ''video'') = Inr (Some (Fin 30)) \<and>
      read_back ?W ascii_builtins ([] @ first_poll_run ''video'' @ first_poll_run ''video'') =
        Inr (Some (Fin 30))"
    by (simp add: rb ended_video_first_poll)
  from th [THEN conjunct2, THEN conjunct2, THEN conjunct2, rule_format, OF pre]
  have b: "wait_for_video_end ?W ascii_builtins ''video'' 5
     (snd (wait_for_video_end ?W ascii_builtins ''video'' 600 [])) =
     ((''played'', Some (Fin 30), ''Video ended normally.''),
      first_poll_run ''video'' @ first_poll_run ''video'')"
    by simp
  from tc [THEN conjunct1] tc [THEN conjunct2, THEN conjunct2, THEN conjunct1, rule_format, OF rc]
  have c: "wait_for_video_end readback_crash_page ascii_builtins ''video'' 600 [] =
     ((''error'', None, ''Exception while waiting for video end: Execution context was destroyed''),
      first_poll_run ''video'')"
    by (simp add: prod_eq_iff)
  from a b c show ?thesis by simp
qed

text \<open>The element is found, play is accepted and the first poll sees \<open>ended\<close>, but the
  position is "abc", or the read-back call fails: the outcome is \<open>error\<close>.\<close>

theorem no_played_on_failed_readback_counterexample:
  "first_poll_seen_ended (ended_video (JNum (Fin 30)) (JStr ''abc'')) ''video'' [] \<and>
   fst (wait_for_video_end (ended_video (JNum (Fin 30)) (JStr ''abc'')) ascii_builtins ''video'' 600 []) =
     (''error'', None,
      ''Exception while waiting for video end: could not convert string to float: ''
        @ [CHR 0x27] @ ''abc'' @ [CHR 0x27]) \<and>
   first_poll_seen_ended readback_crash_page ''video'' [] \<and>
   fst (wait_for_video_end readback_crash_page ascii_builtins ''video'' 600 []) =
     (''error'', None, ''Exception while waiting for video end: Execution context was destroyed'')"
proof -
  have c: "fst (wait_for_video_end (ended_video (JNum (Fin 30)) (JStr ''abc'')) ascii_builtins ''video'' 600 []) =
     (''error'', None,
      ''Exception while waiting for video end: could not convert string to float: ''
        @ [CHR 0x27] @ ''abc'' @ [CHR 0x27])"
    unfolding ended_video_result
    by (simp add: read_back_def dom_ended_video video_def py_float_abc)
  have d: "fst (wait_for_video_end readback_crash_page ascii_builtins ''video'' 600 []) =
     (''error'', None, ''Exception while waiting for video end: Execution context was destroyed'')"
    by (rule crash_page_result)
  from c d ended_video_first_poll crash_page_first_poll show ?thesis by simp
qed

text \<open>
  C10. If the runs parameter parses to an integer \<open>n \<le> 0\<close>, for a request with a non-empty
  URL and a browser that opens and closes without error, \<^verbatim>\<open>main\<close> answers with status
  200 and the empty report, and with the empty history: no trial, no call of the Monitor.
\<close>

theorem nonpositive_runs_no_trials:
  assumes "parse_runs B req = Inr n" and "n \<le> 0"
    and "url_param req = Some u" and "u \<noteq> []"
    and "open_page W u = None" and "close_browser W [] = None"
  shows "main W B cfg req = (Inr \<lparr>status_code = 200, content = Report []\<rparr>, [])"
proof -
  from assms(2) have "py_range n = []" by (simp add: py_range_def)
  with assms show ?thesis by (simp add: main_def)
qed

text \<open>The request \<^verbatim>\<open>runs=-3\<close>.\<close>

theorem nonpositive_runs_no_trials_witness:
  "main (static_page (Dom None)) ascii_builtins default_config (sample_request ''-3'') =
     (Inr \<lparr>status_code = 200, content = Report []\<rparr>, [])"
proof -
  have p: "parse_runs ascii_builtins (sample_request ''-3'') = Inr (- 3)"
    by (simp add: eval_defs)
  show ?thesis
    by (rule nonpositive_runs_no_trials [OF p, of "''https://example.org/clip''"])
       (simp_all add: sample_request_def static_page_def)
qed

end
